theory Spec2Isabelle
  imports Main "HOL-Library.Multiset"
begin

section \<open>The data of the action\<close>

text \<open>
  The action is one function, \<^verbatim>\<open>main\<close> of \<^verbatim>\<open>src/index.js\<close>, and one constant,
  \<^verbatim>\<open>bumpTypes\<close>. Everything else it touches is a library: the GraphQL and REST clients
  of the host, the conventional-commits parser, the semver incrementer and the sink of
  \<^verbatim>\<open>@actions/core\<close>. The libraries are parameters of the model (record \<open>env\<close>), so
  every theorem holds for whatever they answer.
\<close>

record bump_types =
  major :: "string list"
  minor :: "string list"
  patch :: "string list"

definition bumpTypes :: bump_types where
  "bumpTypes =
     \<lparr>major = [],
      minor = [''feat'', ''feature''],
      patch = [''fix'', ''bugfix'', ''perf'', ''refactor'', ''test'', ''tests'']\<rparr>"

text \<open>
  The variable \<^verbatim>\<open>bump\<close> holds one of the literals \<^verbatim>\<open>'major'\<close>, \<^verbatim>\<open>'minor'\<close>,
  \<^verbatim>\<open>'patch'\<close> (or \<^verbatim>\<open>null\<close>, the \<open>None\<close> of \<open>bump option\<close>).
\<close>

datatype bump = Major | Minor | Patch

fun toUpperCase :: "bump \<Rightarrow> string" where
  "toUpperCase Major = ''MAJOR''"
| "toUpperCase Minor = ''MINOR''"
| "toUpperCase Patch = ''PATCH''"

text \<open>A node of \<^verbatim>\<open>repository.refs.nodes\<close> in the answer to the tag query.\<close>

record tag_node =
  name :: string
  oid :: string

text \<open>A commit of the comparison: \<^verbatim>\<open>commit.sha\<close> and \<^verbatim>\<open>commit.commit.message\<close>.\<close>

record commit =
  sha :: string
  message :: string

text \<open>
  The \<^verbatim>\<open>data\<close> of one page of the comparison. Both fields are read with a default
  (\<^verbatim>\<open>_.get(commitsRaw, 'data.total_commits', 0)\<close>), so either may be absent.
\<close>

record compare_data =
  data_total_commits :: "int option"
  data_commits :: "commit list option"

text \<open>
  What \<^verbatim>\<open>cc.toConventionalChangelogFormat(cc.parser(message))\<close> returns, as far as
  \<^verbatim>\<open>main\<close> reads it: the type and the notes, each note with a title.
\<close>

record cc_note =
  title :: string
  note_text :: string

record cAst =
  type :: string
  cc_notes :: "cc_note list"

text \<open>
  The collaborators. \<open>tagsRaw\<close> is the node list of the tag query, \<open>branch\<close> the input
  of that name, \<open>compareCommitsWithBasehead\<close> maps the basehead and the page index to the
  page, \<open>cc_parse\<close> is the parser composed with the changelog format (\<open>None\<close> when
  either throws), \<open>semver_inc\<close> is \<^verbatim>\<open>semver.inc\<close> (\<open>None\<close> for \<^verbatim>\<open>null\<close>).
\<close>

record env =
  branch :: string
  tagsRaw :: "tag_node list"
  compareCommitsWithBasehead :: "string \<Rightarrow> nat \<Rightarrow> compare_data"
  cc_parse :: "string \<Rightarrow> cAst option"
  semver_inc :: "string \<Rightarrow> bump \<Rightarrow> string option"

text \<open>
  The mutable state of \<^verbatim>\<open>main\<close> after the commits are fetched: the three counters,
  and what the sink received, in the order of the calls: the lines of \<^verbatim>\<open>core.info\<close>,
  the messages of \<^verbatim>\<open>core.setFailed\<close>, the pairs of \<^verbatim>\<open>core.exportVariable\<close> (a
  value is a string or \<^verbatim>\<open>null\<close>).
\<close>

record state =
  majorChanges :: nat
  minorChanges :: nat
  patchChanges :: nat
  info :: "string list"
  setFailed :: "string list"
  exportVariable :: "(string \<times> string option) list"

definition init :: state where
  "init = \<lparr>majorChanges = 0, minorChanges = 0, patchChanges = 0,
            info = [], setFailed = [], exportVariable = []\<rparr>"

definition core_info :: "string \<Rightarrow> state \<Rightarrow> state" where
  "core_info m s = s\<lparr>info := info s @ [m]\<rparr>"

definition core_setFailed :: "string \<Rightarrow> state \<Rightarrow> state" where
  "core_setFailed m s = s\<lparr>setFailed := setFailed s @ [m]\<rparr>"

definition core_exportVariable :: "string \<Rightarrow> string option \<Rightarrow> state \<Rightarrow> state" where
  "core_exportVariable k v s = s\<lparr>exportVariable := exportVariable s @ [(k, v)]\<rparr>"

text \<open>A template literal prints \<^verbatim>\<open>null\<close> as the four letters.\<close>

fun template :: "string option \<Rightarrow> string" where
  "template None = ''null''"
| "template (Some v) = v"

section \<open>The latest tag\<close>

text \<open>\<^verbatim>\<open>_.get(tagsRaw, 'repository.refs.nodes[0]')\<close>: the first node, or undefined.\<close>

definition latestTag :: "tag_node list \<Rightarrow> tag_node option" where
  "latestTag nodes = (case nodes of [] \<Rightarrow> None | t # _ \<Rightarrow> Some t)"

section \<open>The pages of commits\<close>

text \<open>
  The \<^verbatim>\<open>do ... while (hasMoreCommits)\<close> loop of lines 50 to 70. Nothing bounds it: a
  fetcher whose reported total grows with the page index keeps it running, so the loop is
  a partial function and \<open>None\<close> stands for a run that never leaves it.

  \<open>fetch p\<close> is the answer to the request for page \<open>p\<close>; \<open>rangeCommits\<close> and
  \<open>total_commits\<close> read it with the defaults of lines 64 and 65, and
  \<open>hasMoreCommits fetch p\<close> is the flag as line 67 sets it after page \<open>p\<close>. In
  \<open>get_commits fetch page acc\<close> the arguments \<open>page\<close> and \<open>acc\<close> are the variables
  \<^verbatim>\<open>curPage\<close> and \<^verbatim>\<open>commits\<close> at the head of an iteration; the result holds
  \<^verbatim>\<open>curPage\<close>, \<^verbatim>\<open>totalCommits\<close> and \<^verbatim>\<open>commits\<close> when the loop is left, so
  \<open>curPage\<close> is the last page requested.
\<close>

record fetched =
  curPage :: nat
  totalCommits :: int
  commits :: "commit list"

definition rangeCommits :: "(nat \<Rightarrow> compare_data) \<Rightarrow> nat \<Rightarrow> commit list" where
  "rangeCommits fetch p = (case data_commits (fetch p) of None \<Rightarrow> [] | Some cs \<Rightarrow> cs)"

definition total_commits :: "(nat \<Rightarrow> compare_data) \<Rightarrow> nat \<Rightarrow> int" where
  "total_commits fetch p = (case data_total_commits (fetch p) of None \<Rightarrow> 0 | Some n \<Rightarrow> n)"

definition hasMoreCommits :: "(nat \<Rightarrow> compare_data) \<Rightarrow> nat \<Rightarrow> bool" where
  "hasMoreCommits fetch p \<longleftrightarrow>
     int ((p - 1) * 100 + length (rangeCommits fetch p)) < total_commits fetch p"

partial_function (option) get_commits ::
  "(nat \<Rightarrow> compare_data) \<Rightarrow> nat \<Rightarrow> commit list \<Rightarrow> fetched option" where
  "get_commits fetch page acc =
     (let p = page + 1;
          acc' = acc @ rangeCommits fetch p
      in if hasMoreCommits fetch p then get_commits fetch p acc'
         else Some \<lparr>curPage = p, totalCommits = total_commits fetch p, commits = acc'\<rparr>)"

section \<open>The scan of the commits\<close>

text \<open>Lines 84 to 95: the type of the commit against the three lists, first match wins.\<close>

definition bump_by_type :: "commit \<Rightarrow> cAst \<Rightarrow> state \<Rightarrow> state" where
  "bump_by_type c a s =
     (if type a \<in> set (major bumpTypes) then
        core_info (''[MAJOR] Commit '' @ sha c @ '' of type '' @ type a
                   @ '' will cause a major version bump.'')
          (s\<lparr>majorChanges := majorChanges s + 1\<rparr>)
      else if type a \<in> set (minor bumpTypes) then
        core_info (''[MINOR] Commit '' @ sha c @ '' of type '' @ type a
                   @ '' will cause a minor version bump.'')
          (s\<lparr>minorChanges := minorChanges s + 1\<rparr>)
      else if type a \<in> set (patch bumpTypes) then
        core_info (''[PATCH] Commit '' @ sha c @ '' of type '' @ type a
                   @ '' will cause a patch version bump.'')
          (s\<lparr>patchChanges := patchChanges s + 1\<rparr>)
      else
        core_info (''[SKIP] Commit '' @ sha c @ '' of type '' @ type a
                   @ '' will not cause any version bump.'') s)"

text \<open>Lines 96 to 101: the body of the loop over the notes of the commit.\<close>

definition bump_by_note :: "commit \<Rightarrow> cc_note \<Rightarrow> state \<Rightarrow> state" where
  "bump_by_note c n s =
     (if title n = ''BREAKING CHANGE'' then
        core_info (''[MAJOR] Commit '' @ sha c
                   @ '' has a BREAKING CHANGE mention, causing a major version bump.'')
          (s\<lparr>majorChanges := majorChanges s + 1\<rparr>)
      else s)"

text \<open>
  Lines 82 to 104: the body of the loop over the commits. The parser is the only call of
  the \<^verbatim>\<open>try\<close> block that throws, and it is the first, so the \<^verbatim>\<open>catch\<close> branch
  starts from the state the iteration started with.
\<close>

definition parse_commit :: "(string \<Rightarrow> cAst option) \<Rightarrow> commit \<Rightarrow> state \<Rightarrow> state" where
  "parse_commit parser c s =
     (case parser (message c) of
        None \<Rightarrow>
          core_info (''[INVALID] Skipping commit '' @ sha c
                     @ '' as it doesn't follow conventional commit format.'') s
      | Some a \<Rightarrow> fold (bump_by_note c) (cc_notes a) (bump_by_type c a s))"

definition parse_commits :: "(string \<Rightarrow> cAst option) \<Rightarrow> commit list \<Rightarrow> state \<Rightarrow> state" where
  "parse_commits parser cs s = fold (parse_commit parser) cs s"

section \<open>The decision and the outputs\<close>

text \<open>Lines 107 to 116; \<open>None\<close> is the last branch, which fails the run.\<close>

definition bump_of :: "state \<Rightarrow> bump option" where
  "bump_of s =
     (if majorChanges s > 0 then Some Major
      else if minorChanges s > 0 then Some Minor
      else if patchChanges s > 0 then Some Patch
      else None)"

text \<open>Lines 78 to 105: the counters set to zero, then the loop over the commits.\<close>

definition classify :: "(string \<Rightarrow> cAst option) \<Rightarrow> commit list \<Rightarrow> state \<Rightarrow> state" where
  "classify parser cs s =
     parse_commits parser cs (s\<lparr>majorChanges := 0, minorChanges := 0, patchChanges := 0\<rparr>)"

definition no_bump_message :: string where
  "no_bump_message = ''No commit resulted in a version bump since last release!''"

definition no_tag_message :: string where
  "no_tag_message =
     ''Couldn't find the latest tag. Make sure you have at least one tag created first.''"

definition no_commits_message :: string where
  "no_commits_message = ''Couldn't find any commits between HEAD and latest tag.''"

text \<open>
  Lines 78 to 126: what \<^verbatim>\<open>main\<close> does once it holds a tag and the commits. The tag
  name goes to \<^verbatim>\<open>semver.inc\<close> as it is, and the answer is not inspected.
\<close>

definition bump_version :: "env \<Rightarrow> tag_node \<Rightarrow> commit list \<Rightarrow> state \<Rightarrow> state" where
  "bump_version e t cs s =
     (let s' = classify (cc_parse e) cs s in
      case bump_of s' of
        None \<Rightarrow> core_setFailed no_bump_message s'
      | Some b \<Rightarrow>
          let s'' = core_info ([CHR 0x0A] @ ''>>> Will bump version '' @ name t @ '' using ''
                               @ toUpperCase b @ [CHR 0x0A]) s';
              next = semver_inc e (name t) b
          in core_exportVariable ''nextStrict'' next
               (core_exportVariable ''next'' (Some (''v'' @ template next))
                  (core_info (''Next version is v'' @ template next) s'')))"

definition main :: "env \<Rightarrow> state option" where
  "main e =
     (case latestTag (tagsRaw e) of
        None \<Rightarrow> Some (core_setFailed no_tag_message init)
      | Some t \<Rightarrow>
          let s = core_info (''Comparing against latest tag: '' @ name t) init in
          case get_commits (compareCommitsWithBasehead e (name t @ ''...'' @ branch e)) 0 [] of
            None \<Rightarrow> None
          | Some f \<Rightarrow>
              if length (commits f) < 1 then Some (core_setFailed no_commits_message s)
              else Some (bump_version e t (commits f) s))"

section \<open>Measures and predicates of the claims\<close>

text \<open>
  The claims speak of what one commit adds to each counter, of the number of commits
  fetched, of a commit that counts for nothing, of the prefix of a tag and of a run that
  halts on a failure. Each is written here in the words of the specification; the
  theorems relate them to \<open>parse_commits\<close>, \<open>get_commits\<close> and \<open>main\<close>.
\<close>

text \<open>The notes titled exactly BREAKING CHANGE among the notes of a commit.\<close>

definition breaking_notes :: "cc_note list \<Rightarrow> nat" where
  "breaking_notes ns = length (filter (\<lambda>n. title n = ''BREAKING CHANGE'') ns)"

text \<open>
  What one commit adds to the major, the minor and the patch counter: nothing when it
  does not parse; else one for its type, in the list that matches first, and one more on
  the major counter for each breaking note.
\<close>

definition major_of :: "(string \<Rightarrow> cAst option) \<Rightarrow> commit \<Rightarrow> nat" where
  "major_of parser c =
     (case parser (message c) of
        None \<Rightarrow> 0
      | Some a \<Rightarrow> (if type a \<in> set (major bumpTypes) then 1 else 0) + breaking_notes (cc_notes a))"

definition minor_of :: "(string \<Rightarrow> cAst option) \<Rightarrow> commit \<Rightarrow> nat" where
  "minor_of parser c =
     (case parser (message c) of
        None \<Rightarrow> 0
      | Some a \<Rightarrow>
          (if type a \<notin> set (major bumpTypes) \<and> type a \<in> set (minor bumpTypes) then 1 else 0))"

definition patch_of :: "(string \<Rightarrow> cAst option) \<Rightarrow> commit \<Rightarrow> nat" where
  "patch_of parser c =
     (case parser (message c) of
        None \<Rightarrow> 0
      | Some a \<Rightarrow>
          (if type a \<notin> set (major bumpTypes) \<and> type a \<notin> set (minor bumpTypes)
              \<and> type a \<in> set (patch bumpTypes) then 1 else 0))"

text \<open>
  A commit that fails to parse or whose type is outside the minor and the patch list; a
  commit that carries a breaking note.
\<close>

definition unlisted :: "(string \<Rightarrow> cAst option) \<Rightarrow> commit \<Rightarrow> bool" where
  "unlisted parser c =
     (case parser (message c) of
        None \<Rightarrow> True
      | Some a \<Rightarrow> type a \<notin> set (minor bumpTypes) \<and> type a \<notin> set (patch bumpTypes))"

definition breaking :: "(string \<Rightarrow> cAst option) \<Rightarrow> commit \<Rightarrow> bool" where
  "breaking parser c =
     (case parser (message c) of
        None \<Rightarrow> False
      | Some a \<Rightarrow> list_ex (\<lambda>n. title n = ''BREAKING CHANGE'') (cc_notes a))"

text \<open>The number of commits fetched once the pages \<open>1 .. p\<close> have arrived.\<close>

definition cumulative :: "(nat \<Rightarrow> compare_data) \<Rightarrow> nat \<Rightarrow> nat" where
  "cumulative fetch p = length (concat (map (rangeCommits fetch) [1..<Suc p]))"

text \<open>The leading non-numeric prefix of a tag name.\<close>

definition tag_prefix :: "string \<Rightarrow> string" where
  "tag_prefix t = takeWhile (\<lambda>c. c \<notin> set ''0123456789'') t"

text \<open>A run that returns having reported the one failure \<open>m\<close> and exported nothing.\<close>

definition halted_with :: "string \<Rightarrow> state option \<Rightarrow> bool" where
  "halted_with m r = (case r of None \<Rightarrow> False | Some s \<Rightarrow> setFailed s = [m] \<and> exportVariable s = [])"

section \<open>Concrete collaborators for the examples\<close>

text \<open>
  The examples need answers of the libraries on a few inputs. \<open>scenario_parse\<close> gives the
  parser's result on the messages of the scenarios of the specification (and fails on
  any other message, as the parser does on \<^verbatim>\<open>update readme\<close>, which has no type);
  \<open>scenario_inc\<close> gives the answer of \<^verbatim>\<open>semver.inc\<close> on the versions 1.2.3 and v1.2.3,
  and \<^verbatim>\<open>null\<close> on the one other tag of the examples, \<^verbatim>\<open>release-abc\<close>, which is no
  version. No theorem about \<open>main\<close> depends on them: they only instantiate theorems that
  hold for every parser and every incrementer.
\<close>

definition breaking_fix :: string where
  "breaking_fix = ''fix: a'' @ [CHR 0x0A, CHR 0x0A] @ ''BREAKING CHANGE: drops support''"

definition breaking_chore :: string where
  "breaking_chore = ''chore: x'' @ [CHR 0x0A, CHR 0x0A] @ ''BREAKING CHANGE: drops support''"

definition scenario_parse :: "string \<Rightarrow> cAst option" where
  "scenario_parse m =
     (if m = ''fix: a'' \<or> m = ''fix: b'' then Some \<lparr>type = ''fix'', cc_notes = []\<rparr>
      else if m = ''feat: b'' then Some \<lparr>type = ''feat'', cc_notes = []\<rparr>
      else if m = ''chore: x'' then Some \<lparr>type = ''chore'', cc_notes = []\<rparr>
      else if m = breaking_fix then
        Some \<lparr>type = ''fix'',
              cc_notes = [\<lparr>title = ''BREAKING CHANGE'', note_text = ''drops support''\<rparr>]\<rparr>
      else if m = breaking_chore then
        Some \<lparr>type = ''chore'',
              cc_notes = [\<lparr>title = ''BREAKING CHANGE'', note_text = ''drops support''\<rparr>]\<rparr>
      else None)"

definition scenario_inc :: "string \<Rightarrow> bump \<Rightarrow> string option" where
  "scenario_inc t b =
     (if t = ''v1.2.3'' \<or> t = ''1.2.3'' then
        Some (case b of Major \<Rightarrow> ''2.0.0'' | Minor \<Rightarrow> ''1.3.0'' | Patch \<Rightarrow> ''1.2.4'')
      else None)"

definition commit_of :: "string \<Rightarrow> commit" where
  "commit_of m = \<lparr>sha = ''0000000'', message = m\<rparr>"

text \<open>
  A repository with the tags \<open>tags\<close>, newest first, whose comparison holds the commits
  with the messages \<open>ms\<close>, all on page 1.
\<close>

definition scenario :: "tag_node list \<Rightarrow> string list \<Rightarrow> env" where
  "scenario tags ms =
     \<lparr>branch = ''main'',
      tagsRaw = tags,
      compareCommitsWithBasehead = (\<lambda>basehead p.
        \<lparr>data_total_commits = Some (int (length ms)),
         data_commits = (if p = 1 then Some (map commit_of ms) else Some [])\<rparr>),
      cc_parse = scenario_parse,
      semver_inc = scenario_inc\<rparr>"

text \<open>A fetcher of one commit per page that reports 3 commits in all.\<close>

definition short_pages :: "nat \<Rightarrow> compare_data" where
  "short_pages p =
     \<lparr>data_total_commits = Some 3,
      data_commits = Some [\<lparr>sha = ''c'' , message = ''fix: a''\<rparr>]\<rparr>"

text \<open>A fetcher of 101 commits, 100 on page 1 and one on page 2, and what the loop returns.\<close>

definition two_pages :: "nat \<Rightarrow> compare_data" where
  "two_pages p =
     \<lparr>data_total_commits = Some 101,
      data_commits =
        (if p = 1 then Some (replicate 100 (commit_of ''fix: a''))
         else if p = 2 then Some [commit_of ''feat: b'']
         else None)\<rparr>"

definition two_pages_fetched :: fetched where
  "two_pages_fetched =
     \<lparr>curPage = 2, totalCommits = 101,
      commits = replicate 100 (commit_of ''fix: a'') @ [commit_of ''feat: b'']\<rparr>"

section \<open>The scan, commit by commit\<close>

text \<open>
  Each counter after a scan is its value before plus what the commits add; the scan
  touches neither the failures nor the exported variables.
\<close>

lemma notes_major: "majorChanges (fold (bump_by_note c) ns s) = majorChanges s + breaking_notes ns"
  by (induction ns arbitrary: s) (simp_all add: bump_by_note_def core_info_def breaking_notes_def)

lemma notes_minor: "minorChanges (fold (bump_by_note c) ns s) = minorChanges s"
  by (induction ns arbitrary: s) (simp_all add: bump_by_note_def core_info_def)

lemma notes_patch: "patchChanges (fold (bump_by_note c) ns s) = patchChanges s"
  by (induction ns arbitrary: s) (simp_all add: bump_by_note_def core_info_def)

lemma notes_setFailed: "setFailed (fold (bump_by_note c) ns s) = setFailed s"
  by (induction ns arbitrary: s) (simp_all add: bump_by_note_def core_info_def)

lemma notes_exportVariable: "exportVariable (fold (bump_by_note c) ns s) = exportVariable s"
  by (induction ns arbitrary: s) (simp_all add: bump_by_note_def core_info_def)

lemma commit_major: "majorChanges (parse_commit parser c s) = majorChanges s + major_of parser c"
  by (simp add: parse_commit_def major_of_def notes_major bump_by_type_def core_info_def
      split: option.split)

lemma commit_minor: "minorChanges (parse_commit parser c s) = minorChanges s + minor_of parser c"
  by (simp add: parse_commit_def minor_of_def notes_minor bump_by_type_def core_info_def
      split: option.split)

lemma commit_patch: "patchChanges (parse_commit parser c s) = patchChanges s + patch_of parser c"
  by (simp add: parse_commit_def patch_of_def notes_patch bump_by_type_def core_info_def
      split: option.split)

lemma commit_setFailed: "setFailed (parse_commit parser c s) = setFailed s"
  by (simp add: parse_commit_def notes_setFailed bump_by_type_def core_info_def
      split: option.split)

lemma commit_exportVariable: "exportVariable (parse_commit parser c s) = exportVariable s"
  by (simp add: parse_commit_def notes_exportVariable bump_by_type_def core_info_def
      split: option.split)

lemma commits_major:
  "majorChanges (parse_commits parser cs s) = majorChanges s + sum_list (map (major_of parser) cs)"
  by (induction cs arbitrary: s) (simp_all add: parse_commits_def commit_major)

lemma commits_minor:
  "minorChanges (parse_commits parser cs s) = minorChanges s + sum_list (map (minor_of parser) cs)"
  by (induction cs arbitrary: s) (simp_all add: parse_commits_def commit_minor)

lemma commits_patch:
  "patchChanges (parse_commits parser cs s) = patchChanges s + sum_list (map (patch_of parser) cs)"
  by (induction cs arbitrary: s) (simp_all add: parse_commits_def commit_patch)

lemma commits_setFailed: "setFailed (parse_commits parser cs s) = setFailed s"
  by (induction cs arbitrary: s) (simp_all add: parse_commits_def commit_setFailed)

lemma commits_exportVariable: "exportVariable (parse_commits parser cs s) = exportVariable s"
  by (induction cs arbitrary: s) (simp_all add: parse_commits_def commit_exportVariable)

lemma classify_major: "majorChanges (classify parser cs s) = sum_list (map (major_of parser) cs)"
  by (simp add: classify_def commits_major)

lemma classify_minor: "minorChanges (classify parser cs s) = sum_list (map (minor_of parser) cs)"
  by (simp add: classify_def commits_minor)

lemma classify_patch: "patchChanges (classify parser cs s) = sum_list (map (patch_of parser) cs)"
  by (simp add: classify_def commits_patch)

lemma classify_setFailed: "setFailed (classify parser cs s) = setFailed s"
  by (simp add: classify_def commits_setFailed)

lemma classify_exportVariable: "exportVariable (classify parser cs s) = exportVariable s"
  by (simp add: classify_def commits_exportVariable)

lemma bump_of_classify:
  "bump_of (classify parser cs s) =
     (if 0 < sum_list (map (major_of parser) cs) then Some Major
      else if 0 < sum_list (map (minor_of parser) cs) then Some Minor
      else if 0 < sum_list (map (patch_of parser) cs) then Some Patch
      else None)"
  by (simp only: bump_of_def classify_major classify_minor classify_patch)

lemma bump_of_classify_state: "bump_of (classify parser cs s) = bump_of (classify parser cs s')"
  by (simp only: bump_of_classify)

lemma classify_Nil: "bump_of (classify parser [] s) = None"
  by (simp add: bump_of_classify)

lemma major_of_pos:
  "parser (message c) = Some a \<Longrightarrow>
   type a \<in> set (major bumpTypes) \<or> (\<exists>n\<in>set (cc_notes a). title n = ''BREAKING CHANGE'') \<Longrightarrow>
   0 < major_of parser c"
  by (auto simp: major_of_def breaking_notes_def filter_empty_conv)

lemma sum_list_pos: "x \<in> set xs \<Longrightarrow> 0 < (x::nat) \<Longrightarrow> 0 < sum_list xs"
  by (induction xs) auto

lemma sum_list_mset_cong:
  "mset xs = mset ys \<Longrightarrow> sum_list (map f xs) = sum_list (map (f :: 'a \<Rightarrow> nat) ys)"
  by (metis mset_map sum_mset_sum_list)

lemma no_count_iff:
  "major_of parser c = 0 \<and> minor_of parser c = 0 \<and> patch_of parser c = 0
   \<longleftrightarrow> unlisted parser c \<and> \<not> breaking parser c"
  by (auto simp: major_of_def minor_of_def patch_of_def unlisted_def breaking_def
      breaking_notes_def bumpTypes_def list_ex_iff filter_empty_conv split: option.splits)

lemma bump_of_None:
  "bump_of (classify parser cs s) = None \<longleftrightarrow>
   (\<forall>c\<in>set cs. major_of parser c = 0 \<and> minor_of parser c = 0 \<and> patch_of parser c = 0)"
proof -
  have "bump_of (classify parser cs s) = None \<longleftrightarrow>
          sum_list (map (major_of parser) cs) = 0 \<and> sum_list (map (minor_of parser) cs) = 0
          \<and> sum_list (map (patch_of parser) cs) = 0"
    unfolding bump_of_classify by (simp del: sum_list_eq_0_iff)
  then show ?thesis by auto
qed

section \<open>The loop over the pages\<close>

text \<open>
  The loop unfolds once per page. It returns at the first page that fails the test
  \<open>hasMoreCommits\<close>, and only there.
\<close>

lemma get_commits_stop:
  "\<not> hasMoreCommits fetch (Suc page) \<Longrightarrow>
   get_commits fetch page acc =
     Some \<lparr>curPage = Suc page, totalCommits = total_commits fetch (Suc page),
           commits = acc @ rangeCommits fetch (Suc page)\<rparr>"
  by (subst get_commits.simps) (simp add: Let_def)

lemma get_commits_more:
  "hasMoreCommits fetch (Suc page) \<Longrightarrow>
   get_commits fetch page acc = get_commits fetch (Suc page) (acc @ rangeCommits fetch (Suc page))"
  by (subst get_commits.simps) (simp add: Let_def)

lemma get_commits_first_stop:
  "page < k \<Longrightarrow> \<not> hasMoreCommits fetch k \<Longrightarrow>
   (\<forall>p. page < p \<and> p < k \<longrightarrow> hasMoreCommits fetch p) \<Longrightarrow>
   get_commits fetch page acc =
     Some \<lparr>curPage = k, totalCommits = total_commits fetch k,
           commits = acc @ concat (map (rangeCommits fetch) [Suc page..<Suc k])\<rparr>"
proof (induction "k - page" arbitrary: page acc)
  case 0
  then show ?case by simp
next
  case (Suc d)
  show ?case
  proof (cases "Suc page = k")
    case True
    with Suc.prems show ?thesis by (simp add: get_commits_stop)
  next
    case False
    with Suc.prems have lt: "Suc page < k" by simp
    with Suc.prems have more: "hasMoreCommits fetch (Suc page)" by simp
    have d: "d = k - Suc page" using Suc.hyps(2) by simp
    have rest: "\<forall>p. Suc page < p \<and> p < k \<longrightarrow> hasMoreCommits fetch p"
      using Suc.prems(3) by simp
    have "get_commits fetch (Suc page) (acc @ rangeCommits fetch (Suc page)) =
            Some \<lparr>curPage = k, totalCommits = total_commits fetch k,
                  commits = (acc @ rangeCommits fetch (Suc page))
                            @ concat (map (rangeCommits fetch) [Suc (Suc page)..<Suc k])\<rparr>"
      by (rule Suc.hyps(1) [OF d lt Suc.prems(2) rest])
    moreover have "[Suc page..<Suc k] = Suc page # [Suc (Suc page)..<Suc k]"
      using lt by (simp add: upt_conv_Cons)
    ultimately show ?thesis by (simp add: get_commits_more [OF more])
  qed
qed

lemma get_commits_Some:
  assumes "get_commits fetch page acc = Some r"
  shows "page < curPage r \<and> \<not> hasMoreCommits fetch (curPage r)
         \<and> (\<forall>p. page < p \<and> p < curPage r \<longrightarrow> hasMoreCommits fetch p)"
  using assms
proof (induction rule: get_commits.raw_induct [rotated 1, consumes 1])
  case (1 rec fetch page acc r)
  show ?case
  proof (cases "hasMoreCommits fetch (Suc page)")
    case True
    with 1(2) have "rec fetch (Suc page) (acc @ rangeCommits fetch (Suc page)) = Some r"
      by (simp add: Let_def)
    from 1(1) [OF this]
    have ih: "Suc page < curPage r" "\<not> hasMoreCommits fetch (curPage r)"
      "\<forall>p. Suc page < p \<and> p < curPage r \<longrightarrow> hasMoreCommits fetch p" by simp_all
    have "hasMoreCommits fetch p" if "page < p \<and> p < curPage r" for p
    proof (cases "p = Suc page")
      case True
      with \<open>hasMoreCommits fetch (Suc page)\<close> show ?thesis by simp
    next
      case False
      with that have "Suc page < p \<and> p < curPage r" by simp
      with ih(3) show ?thesis by blast
    qed
    with ih show ?thesis by simp
  next
    case False
    with 1(2) show ?thesis by (auto simp: Let_def)
  qed
qed

lemma cumulative_full:
  "0 < k \<Longrightarrow> (\<forall>p. 0 < p \<and> p < k \<longrightarrow> length (rangeCommits fetch p) = 100) \<Longrightarrow>
   cumulative fetch k = (k - 1) * 100 + length (rangeCommits fetch k)"
proof (induction k)
  case 0
  then show ?case by simp
next
  case (Suc k)
  show ?case
  proof (cases "k = 0")
    case True
    then show ?thesis by (simp add: cumulative_def)
  next
    case False
    then have "cumulative fetch k = (k - 1) * 100 + length (rangeCommits fetch k)"
      using Suc by simp
    moreover have "length (rangeCommits fetch k) = 100" using Suc.prems False by simp
    moreover have "cumulative fetch (Suc k) = cumulative fetch k + length (rangeCommits fetch (Suc k))"
      by (simp add: cumulative_def)
    ultimately show ?thesis using False by (simp add: algebra_simps)
  qed
qed

section \<open>The run\<close>

lemma core_info_out:
  "setFailed (core_info m s) = setFailed s" "exportVariable (core_info m s) = exportVariable s"
  by (simp_all add: core_info_def)

lemma init_out: "setFailed init = []" "exportVariable init = []"
  by (simp_all add: init_def)

lemma bump_version_setFailed:
  "setFailed (bump_version e t cs s) =
     setFailed s @ (case bump_of (classify (cc_parse e) cs init) of
                      None \<Rightarrow> [no_bump_message] | Some b \<Rightarrow> [])"
  by (simp add: bump_version_def Let_def core_setFailed_def core_info_def
      core_exportVariable_def classify_setFailed bump_of_classify_state [of _ _ s init]
      split: option.split)

lemma bump_version_exportVariable:
  "exportVariable (bump_version e t cs s) =
     exportVariable s @ (case bump_of (classify (cc_parse e) cs init) of
        None \<Rightarrow> []
      | Some b \<Rightarrow> [(''next'', Some (''v'' @ template (semver_inc e (name t) b))),
                   (''nextStrict'', semver_inc e (name t) b)])"
  by (simp add: bump_version_def Let_def core_setFailed_def core_info_def
      core_exportVariable_def classify_exportVariable bump_of_classify_state [of _ _ s init]
      split: option.split)

lemma bump_version_info:
  assumes "bump_of (classify (cc_parse e) cs init) = Some b"
  shows "last (info (bump_version e t cs s))
           = ''Next version is v'' @ template (semver_inc e (name t) b)"
proof -
  have "bump_of (classify (cc_parse e) cs s) = Some b"
    using assms by (simp only: bump_of_classify)
  then show ?thesis
    by (simp add: bump_version_def Let_def core_info_def core_exportVariable_def)
qed

lemma main_no_tag:
  "latestTag (tagsRaw e) = None \<Longrightarrow> main e = Some (core_setFailed no_tag_message init)"
  by (simp add: main_def)

lemma main_fetched:
  "latestTag (tagsRaw e) = Some t \<Longrightarrow>
   get_commits (compareCommitsWithBasehead e (name t @ ''...'' @ branch e)) 0 [] = Some f \<Longrightarrow>
   main e =
     Some (if commits f = []
           then core_setFailed no_commits_message
                  (core_info (''Comparing against latest tag: '' @ name t) init)
           else bump_version e t (commits f)
                  (core_info (''Comparing against latest tag: '' @ name t) init))"
  by (simp add: main_def Let_def)

lemma main_Some:
  "main e = Some r \<Longrightarrow>
   (latestTag (tagsRaw e) = None \<and> r = core_setFailed no_tag_message init)
   \<or> (\<exists>t f. latestTag (tagsRaw e) = Some t
        \<and> get_commits (compareCommitsWithBasehead e (name t @ ''...'' @ branch e)) 0 [] = Some f
        \<and> r = (if commits f = []
           then core_setFailed no_commits_message
                  (core_info (''Comparing against latest tag: '' @ name t) init)
           else bump_version e t (commits f)
                  (core_info (''Comparing against latest tag: '' @ name t) init)))"
  by (auto simp: main_def Let_def split: option.splits if_splits)

lemma main_success:
  assumes t: "latestTag (tagsRaw e) = Some t"
    and f: "get_commits (compareCommitsWithBasehead e (name t @ ''...'' @ branch e)) 0 [] = Some f"
    and b: "bump_of (classify (cc_parse e) (commits f) init) = Some b"
  shows "\<exists>r. main e = Some r \<and> setFailed r = []
           \<and> exportVariable r = [(''next'', Some (''v'' @ template (semver_inc e (name t) b))),
                                  (''nextStrict'', semver_inc e (name t) b)]"
proof -
  let ?s = "core_info (''Comparing against latest tag: '' @ name t) init"
  have ne: "commits f \<noteq> []"
    using b classify_Nil [of "cc_parse e" init] by auto
  have "main e = Some (bump_version e t (commits f) ?s)"
    using ne by (simp add: main_fetched [OF t f])
  moreover have "setFailed (bump_version e t (commits f) ?s) = []"
    by (simp add: bump_version_setFailed b core_info_out init_out)
  moreover have "exportVariable (bump_version e t (commits f) ?s)
      = [(''next'', Some (''v'' @ template (semver_inc e (name t) b))),
         (''nextStrict'', semver_inc e (name t) b)]"
    by (simp add: bump_version_exportVariable b core_info_out init_out)
  ultimately show ?thesis by blast
qed

lemma main_outcome:
  assumes "main e = Some r"
  shows "(setFailed r = [no_tag_message] \<and> exportVariable r = [] \<and> latestTag (tagsRaw e) = None)
    \<or> (\<exists>t f. latestTag (tagsRaw e) = Some t
          \<and> get_commits (compareCommitsWithBasehead e (name t @ ''...'' @ branch e)) 0 [] = Some f
          \<and> ((setFailed r = [no_commits_message] \<and> exportVariable r = [] \<and> commits f = [])
             \<or> (setFailed r = [no_bump_message] \<and> exportVariable r = [] \<and> commits f \<noteq> []
                 \<and> bump_of (classify (cc_parse e) (commits f) init) = None)
             \<or> (\<exists>b. setFailed r = [] \<and> commits f \<noteq> []
                 \<and> bump_of (classify (cc_parse e) (commits f) init) = Some b
                 \<and> exportVariable r = [(''next'', Some (''v'' @ template (semver_inc e (name t) b))),
                                        (''nextStrict'', semver_inc e (name t) b)])))"
proof -
  from main_Some [OF assms] show ?thesis
  proof (elim disjE conjE exE)
    assume "latestTag (tagsRaw e) = None" "r = core_setFailed no_tag_message init"
    then show ?thesis by (simp add: core_setFailed_def init_def)
  next
    fix t :: tag_node and f :: fetched
    let ?s = "core_info (''Comparing against latest tag: '' @ name t) init"
    assume t: "latestTag (tagsRaw e) = Some t"
      and f: "get_commits (compareCommitsWithBasehead e (name t @ ''...'' @ branch e)) 0 [] = Some f"
      and r: "r = (if commits f = [] then core_setFailed no_commits_message ?s
                   else bump_version e t (commits f) ?s)"
    have "(setFailed r = [no_commits_message] \<and> exportVariable r = [] \<and> commits f = [])
             \<or> (setFailed r = [no_bump_message] \<and> exportVariable r = [] \<and> commits f \<noteq> []
                 \<and> bump_of (classify (cc_parse e) (commits f) init) = None)
             \<or> (\<exists>b. setFailed r = [] \<and> commits f \<noteq> []
                 \<and> bump_of (classify (cc_parse e) (commits f) init) = Some b
                 \<and> exportVariable r = [(''next'', Some (''v'' @ template (semver_inc e (name t) b))),
                                        (''nextStrict'', semver_inc e (name t) b)])"
    proof (cases "commits f = []")
      case True
      with r show ?thesis by (simp add: core_setFailed_def core_info_def init_def)
    next
      case False
      show ?thesis
      proof (cases "bump_of (classify (cc_parse e) (commits f) init)")
        case None
        with False r show ?thesis
          by (simp add: bump_version_setFailed bump_version_exportVariable core_info_out init_out)
      next
        case (Some b)
        with False r show ?thesis
          by (simp add: bump_version_setFailed bump_version_exportVariable core_info_out init_out)
      qed
    qed
    with t f show ?thesis by blast
  qed
qed

section \<open>The examples\<close>

lemma scenario_get_commits:
  "get_commits (compareCommitsWithBasehead (scenario tags ms) bh) 0 [] =
     Some \<lparr>curPage = 1, totalCommits = int (length ms), commits = map commit_of ms\<rparr>"
proof -
  have "\<not> hasMoreCommits (compareCommitsWithBasehead (scenario tags ms) bh) (Suc 0)"
    by (simp add: hasMoreCommits_def scenario_def rangeCommits_def total_commits_def)
  from get_commits_stop [OF this, of "[]"] show ?thesis
    by (simp add: scenario_def rangeCommits_def total_commits_def)
qed

lemma scenario_main:
  "main (scenario (t # ts) (m # ms)) =
     Some (bump_version (scenario (t # ts) (m # ms)) t (map commit_of (m # ms))
             (core_info (''Comparing against latest tag: '' @ name t) init))"
proof -
  have "latestTag (tagsRaw (scenario (t # ts) (m # ms))) = Some t"
    by (simp add: latestTag_def scenario_def)
  from main_fetched [OF this scenario_get_commits] show ?thesis by simp
qed

lemma scenario_sel:
  "cc_parse (scenario ts ms) = scenario_parse" "semver_inc (scenario ts ms) = scenario_inc"
  by (simp_all add: scenario_def)

lemma scenario_bump_fix:
  "bump_of (classify scenario_parse (map commit_of [''fix: a'']) init) = Some Patch"
  by (simp add: bump_of_classify major_of_def minor_of_def patch_of_def commit_of_def
      scenario_parse_def breaking_fix_def breaking_chore_def bumpTypes_def breaking_notes_def)

lemma scenario_bump_chore:
  "bump_of (classify scenario_parse (map commit_of [''chore: x'']) init) = None"
  by (simp add: bump_of_classify major_of_def minor_of_def patch_of_def commit_of_def
      scenario_parse_def breaking_fix_def breaking_chore_def bumpTypes_def breaking_notes_def)

lemma scenario_bump_fix_feat:
  "bump_of (classify scenario_parse (map commit_of [''fix: a'', ''feat: b'']) init) = Some Minor"
  by (simp add: bump_of_classify major_of_def minor_of_def patch_of_def commit_of_def
      scenario_parse_def breaking_fix_def breaking_chore_def bumpTypes_def breaking_notes_def)

section \<open>The decision\<close>

text \<open>
  C1. After any list of commits is scanned, the decision is major if the major counter
  is positive, else minor if the minor counter is, else patch if the patch counter is,
  else none; each counter is the sum of what the commits add to it. If some commit
  parses to a type of the major list or carries a note titled BREAKING CHANGE, the
  decision is major, whatever the other commits are.
\<close>

theorem C1_decision_by_priority:
  "bump_of (classify parser cs s) =
     (if 0 < majorChanges (classify parser cs s) then Some Major
      else if 0 < minorChanges (classify parser cs s) then Some Minor
      else if 0 < patchChanges (classify parser cs s) then Some Patch
      else None)
   \<and> majorChanges (classify parser cs s) = sum_list (map (major_of parser) cs)
   \<and> minorChanges (classify parser cs s) = sum_list (map (minor_of parser) cs)
   \<and> patchChanges (classify parser cs s) = sum_list (map (patch_of parser) cs)
   \<and> ((\<exists>c\<in>set cs. \<exists>a. parser (message c) = Some a
          \<and> (type a \<in> set (major bumpTypes)
             \<or> (\<exists>n\<in>set (cc_notes a). title n = ''BREAKING CHANGE'')))
        \<longrightarrow> bump_of (classify parser cs s) = Some Major)"
proof -
  have "bump_of (classify parser cs s) = Some Major"
    if "\<exists>c\<in>set cs. \<exists>a. parser (message c) = Some a
          \<and> (type a \<in> set (major bumpTypes)
             \<or> (\<exists>n\<in>set (cc_notes a). title n = ''BREAKING CHANGE''))"
  proof -
    from that obtain c a where c: "c \<in> set cs" "parser (message c) = Some a"
      "type a \<in> set (major bumpTypes) \<or> (\<exists>n\<in>set (cc_notes a). title n = ''BREAKING CHANGE'')"
      by blast
    have "0 < major_of parser c"
      using c(2) c(3) by (rule major_of_pos)
    moreover have "major_of parser c \<in> set (map (major_of parser) cs)"
      using c(1) by simp
    ultimately have "0 < sum_list (map (major_of parser) cs)"
      by (rule sum_list_pos [rotated])
    then show ?thesis by (simp only: bump_of_classify if_True)
  qed
  moreover have "bump_of (classify parser cs s) =
     (if 0 < majorChanges (classify parser cs s) then Some Major
      else if 0 < minorChanges (classify parser cs s) then Some Minor
      else if 0 < patchChanges (classify parser cs s) then Some Patch
      else None)"
    by (simp only: bump_of_def)
  ultimately show ?thesis
    using classify_major [of parser cs s] classify_minor [of parser cs s]
      classify_patch [of parser cs s] by blast
qed

text \<open>C1 on a fix, two features and a fix with a breaking note: major, with two minor commits.\<close>

theorem C1_decision_by_priority_witness:
  "(\<exists>c\<in>set (map commit_of [''fix: a'', ''feat: b'', breaking_fix, ''feat: b'']).
      \<exists>a. scenario_parse (message c) = Some a
          \<and> (type a \<in> set (major bumpTypes)
             \<or> (\<exists>n\<in>set (cc_notes a). title n = ''BREAKING CHANGE'')))
   \<and> bump_of (classify scenario_parse
        (map commit_of [''fix: a'', ''feat: b'', breaking_fix, ''feat: b'']) init) = Some Major
   \<and> minorChanges (classify scenario_parse
        (map commit_of [''fix: a'', ''feat: b'', breaking_fix, ''feat: b'']) init) = 2"
proof -
  let ?cs = "map commit_of [''fix: a'', ''feat: b'', breaking_fix, ''feat: b'']"
  have h: "\<exists>c\<in>set ?cs.
      \<exists>a. scenario_parse (message c) = Some a
          \<and> (type a \<in> set (major bumpTypes)
             \<or> (\<exists>n\<in>set (cc_notes a). title n = ''BREAKING CHANGE''))"
    by (simp add: commit_of_def scenario_parse_def breaking_fix_def breaking_chore_def)
  have m: "sum_list (map (minor_of scenario_parse) ?cs) = 2"
    by (simp add: minor_of_def commit_of_def scenario_parse_def
        breaking_fix_def breaking_chore_def bumpTypes_def)
  note t = C1_decision_by_priority [of scenario_parse ?cs init]
  from t h have "bump_of (classify scenario_parse ?cs init) = Some Major"
    by (elim conjE impE)
  moreover from t m have "minorChanges (classify scenario_parse ?cs init) = 2"
    by (elim conjE) (simp only:)
  ultimately show ?thesis using h by (intro conjI)
qed

text \<open>
  C3. For every list of commits the decision is none exactly when every commit fails to
  parse or has a type outside the minor and the patch list, and no commit carries a
  note titled BREAKING CHANGE; equivalently, exactly when the three counters are zero.
  In that case the scan is followed by the one failure
  \<^verbatim>\<open>No commit resulted in a version bump since last release!\<close> and no variable is
  exported; so ends every run of \<^verbatim>\<open>main\<close> that reaches the scan with such commits.
\<close>

theorem C3_none_iff_nothing_counts:
  "(bump_of (classify parser cs s) = None \<longleftrightarrow>
      (\<forall>c\<in>set cs. unlisted parser c) \<and> (\<forall>c\<in>set cs. \<not> breaking parser c))
   \<and> (bump_of (classify parser cs s) = None \<longleftrightarrow>
        majorChanges (classify parser cs s) = 0 \<and> minorChanges (classify parser cs s) = 0
        \<and> patchChanges (classify parser cs s) = 0)
   \<and> (bump_of (classify (cc_parse e) cs s) = None \<longrightarrow>
        setFailed (bump_version e t cs s) = setFailed s @ [no_bump_message]
        \<and> exportVariable (bump_version e t cs s) = exportVariable s)
   \<and> (latestTag (tagsRaw e) = Some t \<longrightarrow>
        get_commits (compareCommitsWithBasehead e (name t @ ''...'' @ branch e)) 0 [] = Some f \<longrightarrow>
        commits f \<noteq> [] \<longrightarrow>
        bump_of (classify (cc_parse e) (commits f) init) = None \<longrightarrow>
        halted_with no_bump_message (main e))"
proof (intro conjI impI)
  show "bump_of (classify parser cs s) = None \<longleftrightarrow>
      (\<forall>c\<in>set cs. unlisted parser c) \<and> (\<forall>c\<in>set cs. \<not> breaking parser c)"
    unfolding bump_of_None no_count_iff by blast
  show "bump_of (classify parser cs s) = None \<longleftrightarrow>
        majorChanges (classify parser cs s) = 0 \<and> minorChanges (classify parser cs s) = 0
        \<and> patchChanges (classify parser cs s) = 0"
    by (simp add: bump_of_def)
next
  assume "bump_of (classify (cc_parse e) cs s) = None"
  then have "bump_of (classify (cc_parse e) cs init) = None"
    by (simp only: bump_of_classify)
  then show "setFailed (bump_version e t cs s) = setFailed s @ [no_bump_message]"
    and "exportVariable (bump_version e t cs s) = exportVariable s"
    by (simp_all add: bump_version_setFailed bump_version_exportVariable)
next
  assume t: "latestTag (tagsRaw e) = Some t"
    and f: "get_commits (compareCommitsWithBasehead e (name t @ ''...'' @ branch e)) 0 [] = Some f"
    and ne: "commits f \<noteq> []"
    and none: "bump_of (classify (cc_parse e) (commits f) init) = None"
  show "halted_with no_bump_message (main e)"
    using ne none
    by (simp add: main_fetched [OF t f] halted_with_def bump_version_setFailed
        bump_version_exportVariable core_info_out init_out)
qed

text \<open>C3 on a chore and a message that does not parse, after the tag v1.2.3.\<close>

theorem C3_witness:
  "bump_of (classify scenario_parse (map commit_of [''chore: x'', ''update readme'']) init) = None
   \<and> unlisted scenario_parse (commit_of ''chore: x'')
   \<and> unlisted scenario_parse (commit_of ''update readme'')
   \<and> \<not> breaking scenario_parse (commit_of ''chore: x'')
   \<and> \<not> breaking scenario_parse (commit_of ''update readme'')
   \<and> setFailed (bump_version (scenario [\<lparr>name = ''v1.2.3'', oid = ''0''\<rparr>] [''chore: x'', ''update readme''])
        \<lparr>name = ''v1.2.3'', oid = ''0''\<rparr> (map commit_of [''chore: x'', ''update readme'']) init)
       = [no_bump_message]
   \<and> halted_with no_bump_message
        (main (scenario [\<lparr>name = ''v1.2.3'', oid = ''0''\<rparr>] [''chore: x'', ''update readme'']))"
proof -
  let ?cs = "map commit_of [''chore: x'', ''update readme'']"
  let ?e = "scenario [\<lparr>name = ''v1.2.3'', oid = ''0''\<rparr>] [''chore: x'', ''update readme'']"
  let ?t = "\<lparr>name = ''v1.2.3'', oid = ''0''\<rparr>"
  let ?f = "\<lparr>curPage = 1, totalCommits = int (length [''chore: x'', ''update readme'']),
            commits = ?cs\<rparr>"
  have u: "unlisted scenario_parse (commit_of ''chore: x'')"
    "unlisted scenario_parse (commit_of ''update readme'')"
    by (simp_all add: unlisted_def commit_of_def scenario_parse_def
        breaking_fix_def breaking_chore_def bumpTypes_def)
  have b: "\<not> breaking scenario_parse (commit_of ''chore: x'')"
    "\<not> breaking scenario_parse (commit_of ''update readme'')"
    by (simp_all add: breaking_def commit_of_def scenario_parse_def
        breaking_fix_def breaking_chore_def)
  have all: "(\<forall>c\<in>set ?cs. unlisted scenario_parse c) \<and> (\<forall>c\<in>set ?cs. \<not> breaking scenario_parse c)"
    using u b by simp
  note c3 = C3_none_iff_nothing_counts [where parser = scenario_parse and cs = ?cs and s = init and e = ?e and t = ?t and f = ?f]
  have none: "bump_of (classify scenario_parse ?cs init) = None"
    by (rule iffD2 [OF conjunct1 [OF c3] all])
  have t: "latestTag (tagsRaw ?e) = Some ?t" by (simp add: latestTag_def scenario_def)
  have f: "get_commits (compareCommitsWithBasehead ?e (name ?t @ ''...'' @ branch ?e)) 0 [] = Some ?f"
    by (rule scenario_get_commits)
  have ne: "commits ?f \<noteq> []" by simp
  have none': "bump_of (classify (cc_parse ?e) (commits ?f) init) = None"
    using none by (simp add: scenario_def)
  have "halted_with no_bump_message (main ?e)"
    by (rule mp [OF mp [OF mp [OF mp [OF conjunct2 [OF conjunct2 [OF conjunct2 [OF c3]]] t] f] ne] none'])
  moreover have "bump_of (classify (cc_parse ?e) ?cs init) = None"
    using none by (simp add: scenario_def)
  from mp [OF conjunct1 [OF conjunct2 [OF conjunct2 [OF c3]]] this]
  have "setFailed (bump_version ?e ?t ?cs init) = [no_bump_message]"
    by (simp add: init_def)
  ultimately show ?thesis using none u b by (intro conjI)
qed

text \<open>
  C9. Two lists of commits that are permutations of each other give the same three
  counters and the same decision, hence the same failure or the same exported variables;
  only the lines of \<^verbatim>\<open>core.info\<close> may come in another order.
\<close>

theorem C9_order_is_irrelevant:
  "mset cs' = mset cs \<Longrightarrow>
   majorChanges (classify parser cs' s) = majorChanges (classify parser cs s)
   \<and> minorChanges (classify parser cs' s) = minorChanges (classify parser cs s)
   \<and> patchChanges (classify parser cs' s) = patchChanges (classify parser cs s)
   \<and> bump_of (classify parser cs' s) = bump_of (classify parser cs s)
   \<and> setFailed (bump_version e t cs' s) = setFailed (bump_version e t cs s)
   \<and> exportVariable (bump_version e t cs' s) = exportVariable (bump_version e t cs s)"
proof -
  assume m: "mset cs' = mset cs"
  have sums: "sum_list (map (major_of p) cs') = sum_list (map (major_of p) cs)"
    "sum_list (map (minor_of p) cs') = sum_list (map (minor_of p) cs)"
    "sum_list (map (patch_of p) cs') = sum_list (map (patch_of p) cs)" for p
    using m by (rule sum_list_mset_cong)+
  have b: "bump_of (classify p cs' s0) = bump_of (classify p cs s0)" for p s0
    by (simp only: bump_of_classify sums)
  show ?thesis
    by (simp only: classify_major classify_minor classify_patch sums b
        bump_version_setFailed bump_version_exportVariable simp_thms)
qed

text \<open>C9 on a rotation of three commits: same decision and counters, another log.\<close>

theorem C9_witness:
  "mset (map commit_of [''feat: b'', breaking_fix, ''fix: a''])
     = mset (map commit_of [''fix: a'', ''feat: b'', breaking_fix])
   \<and> bump_of (classify scenario_parse (map commit_of [''feat: b'', breaking_fix, ''fix: a'']) init)
     = bump_of (classify scenario_parse (map commit_of [''fix: a'', ''feat: b'', breaking_fix]) init)
   \<and> patchChanges (classify scenario_parse (map commit_of [''feat: b'', breaking_fix, ''fix: a'']) init)
     = patchChanges (classify scenario_parse (map commit_of [''fix: a'', ''feat: b'', breaking_fix]) init)
   \<and> info (classify scenario_parse (map commit_of [''feat: b'', breaking_fix, ''fix: a'']) init)
     \<noteq> info (classify scenario_parse (map commit_of [''fix: a'', ''feat: b'', breaking_fix]) init)"
proof -
  let ?xs = "map commit_of [''feat: b'', breaking_fix, ''fix: a'']"
  let ?ys = "map commit_of [''fix: a'', ''feat: b'', breaking_fix]"
  have m: "mset ?xs = mset ?ys" by (simp add: add_mset_commute)
  note c9 = C9_order_is_irrelevant
              [OF m, where parser = scenario_parse and s = init
                 and e = "scenario [] []" and t = "\<lparr>name = ''v1.2.3'', oid = ''0''\<rparr>"]
  have d: "info (classify scenario_parse ?xs init) \<noteq> info (classify scenario_parse ?ys init)"
    by (simp add: classify_def parse_commits_def parse_commit_def commit_of_def
        scenario_parse_def
        breaking_fix_def breaking_chore_def bump_by_type_def bump_by_note_def bumpTypes_def
        core_info_def init_def)
  from m c9 [THEN conjunct2, THEN conjunct2, THEN conjunct2, THEN conjunct1]
    c9 [THEN conjunct2, THEN conjunct2, THEN conjunct1] d
  show ?thesis by (intro conjI)
qed

section \<open>One commit\<close>

text \<open>
  C5. For a commit that parses, each note titled exactly BREAKING CHANGE adds one to the
  major counter, on top of what the type of the commit added, whatever that type is: the
  major counter grows by the number of such notes. A commit whose type is in the minor or
  the patch list still adds one to that counter, so a commit with such a note counts
  twice.
\<close>

theorem C5_breaking_note_counts_major:
  "parser (message c) = Some a \<Longrightarrow>
   majorChanges (parse_commit parser c s)
     = majorChanges (bump_by_type c a s)
       + length (filter (\<lambda>n. title n = ''BREAKING CHANGE'') (cc_notes a))
   \<and> majorChanges (parse_commit parser c s)
     = majorChanges s + length (filter (\<lambda>n. title n = ''BREAKING CHANGE'') (cc_notes a))
   \<and> (title n = ''BREAKING CHANGE'' \<longrightarrow>
        majorChanges (bump_by_note c n s') = majorChanges s' + 1)
   \<and> (title n \<noteq> ''BREAKING CHANGE'' \<longrightarrow> bump_by_note c n s' = s')
   \<and> (type a \<in> set (minor bumpTypes) \<longrightarrow>
        minorChanges (parse_commit parser c s) = minorChanges s + 1)
   \<and> (type a \<in> set (patch bumpTypes) \<longrightarrow>
        patchChanges (parse_commit parser c s) = patchChanges s + 1)"
proof (intro conjI impI)
  assume p: "parser (message c) = Some a"
  show "majorChanges (parse_commit parser c s)
     = majorChanges (bump_by_type c a s)
       + length (filter (\<lambda>n. title n = ''BREAKING CHANGE'') (cc_notes a))"
    using p by (simp add: parse_commit_def notes_major breaking_notes_def)
  show "majorChanges (parse_commit parser c s)
     = majorChanges s + length (filter (\<lambda>n. title n = ''BREAKING CHANGE'') (cc_notes a))"
    using p by (simp add: commit_major major_of_def breaking_notes_def bumpTypes_def)
  show "majorChanges (bump_by_note c n s') = majorChanges s' + 1"
    if "title n = ''BREAKING CHANGE''"
    using that by (simp add: bump_by_note_def core_info_def)
  show "bump_by_note c n s' = s'" if "title n \<noteq> ''BREAKING CHANGE''"
    using that by (simp add: bump_by_note_def)
  show "minorChanges (parse_commit parser c s) = minorChanges s + 1"
    if "type a \<in> set (minor bumpTypes)"
    using p that by (simp add: commit_minor minor_of_def bumpTypes_def)
  show "patchChanges (parse_commit parser c s) = patchChanges s + 1"
    if "type a \<in> set (patch bumpTypes)"
    using p that by (auto simp: commit_patch patch_of_def bumpTypes_def)
qed

text \<open>C5 on a fix with a breaking note; a note titled \<^verbatim>\<open>Breaking change\<close> counts for nothing.\<close>

theorem C5_witness:
  "scenario_parse (message (commit_of breaking_fix))
     = Some \<lparr>type = ''fix'',
             cc_notes = [\<lparr>title = ''BREAKING CHANGE'', note_text = ''drops support''\<rparr>]\<rparr>
   \<and> ''fix'' \<in> set (patch bumpTypes)
   \<and> majorChanges (parse_commit scenario_parse (commit_of breaking_fix) init) = 1
   \<and> patchChanges (parse_commit scenario_parse (commit_of breaking_fix) init) = 1
   \<and> majorChanges (bump_by_note (commit_of breaking_fix)
        \<lparr>title = ''BREAKING CHANGE'', note_text = ''drops support''\<rparr> init) = 1
   \<and> bump_by_note (commit_of breaking_fix)
        \<lparr>title = ''Breaking change'', note_text = ''drops support''\<rparr> init = init"
proof -
  let ?a = "\<lparr>type = ''fix'',
             cc_notes = [\<lparr>title = ''BREAKING CHANGE'', note_text = ''drops support''\<rparr>]\<rparr>"
  have p: "scenario_parse (message (commit_of breaking_fix)) = Some ?a"
    by (simp add: scenario_parse_def commit_of_def breaking_fix_def breaking_chore_def)
  have m: "''fix'' \<in> set (patch bumpTypes)" by (simp add: bumpTypes_def)
  note c5 = C5_breaking_note_counts_major
              [where parser = scenario_parse and c = "commit_of breaking_fix" and a = ?a
                 and s = init and s' = init, OF p]
  have "majorChanges (parse_commit scenario_parse (commit_of breaking_fix) init) = 1"
    using c5 [where n = "\<lparr>title = ''BREAKING CHANGE'', note_text = ''drops support''\<rparr>"]
    by (simp add: init_def)
  moreover have "patchChanges (parse_commit scenario_parse (commit_of breaking_fix) init) = 1"
    using c5 [where n = "\<lparr>title = ''BREAKING CHANGE'', note_text = ''drops support''\<rparr>"] m
    by (simp add: init_def)
  moreover have "majorChanges (bump_by_note (commit_of breaking_fix)
        \<lparr>title = ''BREAKING CHANGE'', note_text = ''drops support''\<rparr> init) = 1"
    using c5 [where n = "\<lparr>title = ''BREAKING CHANGE'', note_text = ''drops support''\<rparr>"]
    by (simp add: init_def)
  moreover have "bump_by_note (commit_of breaking_fix)
        \<lparr>title = ''Breaking change'', note_text = ''drops support''\<rparr> init = init"
    using c5 [where n = "\<lparr>title = ''Breaking change'', note_text = ''drops support''\<rparr>"]
    by simp
  ultimately show ?thesis using p m by (intro conjI)
qed

text \<open>
  C6, as amended. The major list is empty, the minor list is feat and feature, the patch
  list is fix, bugfix, perf, refactor, test and tests. The lookup of the type adds one to
  the minor counter exactly for the types of the minor list, one to the patch counter
  exactly for those of the patch list, and never anything to the major counter. For a
  type in none of the lists the lookup changes no counter: it only logs a SKIP line,
  which is not the line of a parse failure. For such a commit the minor and the patch
  counter stay as they were, and the major counter grows by the number of its notes
  titled BREAKING CHANGE, which may be positive.
\<close>

theorem C6_type_to_severity:
  "major bumpTypes = [] \<and> minor bumpTypes = [''feat'', ''feature'']
   \<and> patch bumpTypes = [''fix'', ''bugfix'', ''perf'', ''refactor'', ''test'', ''tests'']
   \<and> majorChanges (bump_by_type c a s) = majorChanges s
   \<and> minorChanges (bump_by_type c a s)
       = minorChanges s + (if type a \<in> {''feat'', ''feature''} then 1 else 0)
   \<and> patchChanges (bump_by_type c a s)
       = patchChanges s
         + (if type a \<in> {''fix'', ''bugfix'', ''perf'', ''refactor'', ''test'', ''tests''}
            then 1 else 0)
   \<and> (type a \<notin> {''feat'', ''feature'', ''fix'', ''bugfix'', ''perf'', ''refactor'', ''test'',
                  ''tests''} \<longrightarrow>
        bump_by_type c a s
          = core_info (''[SKIP] Commit '' @ sha c @ '' of type '' @ type a
                       @ '' will not cause any version bump.'') s
        \<and> bump_by_type c a s
          \<noteq> core_info (''[INVALID] Skipping commit '' @ sha c
                       @ '' as it doesn't follow conventional commit format.'') s)
   \<and> (parser (message c) = Some a \<longrightarrow>
        type a \<notin> {''feat'', ''feature'', ''fix'', ''bugfix'', ''perf'', ''refactor'', ''test'',
                  ''tests''} \<longrightarrow>
        minorChanges (parse_commit parser c s) = minorChanges s
        \<and> patchChanges (parse_commit parser c s) = patchChanges s
        \<and> majorChanges (parse_commit parser c s)
            = majorChanges s
              + length (filter (\<lambda>n. title n = ''BREAKING CHANGE'') (cc_notes a)))"
proof -
  have lists: "major bumpTypes = []" "minor bumpTypes = [''feat'', ''feature'']"
    "patch bumpTypes = [''fix'', ''bugfix'', ''perf'', ''refactor'', ''test'', ''tests'']"
    by (simp_all add: bumpTypes_def)
  have f1: "majorChanges (bump_by_type c a s) = majorChanges s"
    by (simp add: bump_by_type_def lists core_info_def)
  have f2: "minorChanges (bump_by_type c a s)
       = minorChanges s + (if type a \<in> {''feat'', ''feature''} then 1 else 0)"
    by (simp add: bump_by_type_def lists core_info_def)
  have f3: "patchChanges (bump_by_type c a s)
       = patchChanges s
         + (if type a \<in> {''fix'', ''bugfix'', ''perf'', ''refactor'', ''test'', ''tests''}
            then 1 else 0)"
    by (auto simp: bump_by_type_def lists core_info_def)
  have f4: "bump_by_type c a s
          = core_info (''[SKIP] Commit '' @ sha c @ '' of type '' @ type a
                       @ '' will not cause any version bump.'') s
        \<and> bump_by_type c a s
          \<noteq> core_info (''[INVALID] Skipping commit '' @ sha c
                       @ '' as it doesn't follow conventional commit format.'') s"
    if "type a \<notin> {''feat'', ''feature'', ''fix'', ''bugfix'', ''perf'', ''refactor'', ''test'',
                  ''tests''}"
  proof -
    have skip: "bump_by_type c a s
          = core_info (''[SKIP] Commit '' @ sha c @ '' of type '' @ type a
                       @ '' will not cause any version bump.'') s"
      using that by (simp add: bump_by_type_def lists)
    have "info (core_info (''[SKIP] Commit '' @ sha c @ '' of type '' @ type a
                       @ '' will not cause any version bump.'') s)
          \<noteq> info (core_info (''[INVALID] Skipping commit '' @ sha c
                       @ '' as it doesn't follow conventional commit format.'') s)"
      by (simp add: core_info_def)
    then have "core_info (''[SKIP] Commit '' @ sha c @ '' of type '' @ type a
                       @ '' will not cause any version bump.'') s
          \<noteq> core_info (''[INVALID] Skipping commit '' @ sha c
                       @ '' as it doesn't follow conventional commit format.'') s"
      by (rule contrapos_nn) simp
    with skip show ?thesis by simp
  qed
  have f5: "minorChanges (parse_commit parser c s) = minorChanges s
        \<and> patchChanges (parse_commit parser c s) = patchChanges s
        \<and> majorChanges (parse_commit parser c s)
            = majorChanges s
              + length (filter (\<lambda>n. title n = ''BREAKING CHANGE'') (cc_notes a))"
    if "parser (message c) = Some a"
      "type a \<notin> {''feat'', ''feature'', ''fix'', ''bugfix'', ''perf'', ''refactor'', ''test'',
                  ''tests''}"
    using that
    by (simp add: commit_major commit_minor commit_patch major_of_def minor_of_def
        patch_of_def lists breaking_notes_def)
  from lists f1 f2 f3 f4 f5 show ?thesis by blast
qed

text \<open>C6 on a chore without notes, which changes no counter, and on a feature.\<close>

theorem C6_witness:
  "scenario_parse (message (commit_of ''chore: x'')) = Some \<lparr>type = ''chore'', cc_notes = []\<rparr>
   \<and> ''chore'' \<notin> {''feat'', ''feature'', ''fix'', ''bugfix'', ''perf'', ''refactor'', ''test'',
                    ''tests''}
   \<and> majorChanges (parse_commit scenario_parse (commit_of ''chore: x'') init) = 0
   \<and> minorChanges (parse_commit scenario_parse (commit_of ''chore: x'') init) = 0
   \<and> patchChanges (parse_commit scenario_parse (commit_of ''chore: x'') init) = 0
   \<and> info (bump_by_type (commit_of ''chore: x'') \<lparr>type = ''chore'', cc_notes = []\<rparr> init)
       = [''[SKIP] Commit 0000000 of type chore will not cause any version bump.'']
   \<and> minorChanges (bump_by_type (commit_of ''feat: b'') \<lparr>type = ''feat'', cc_notes = []\<rparr> init) = 1"
proof -
  let ?c = "commit_of ''chore: x''"
  let ?a = "\<lparr>type = ''chore'', cc_notes = []\<rparr>"
  have p: "scenario_parse (message ?c) = Some ?a"
    by (simp add: scenario_parse_def commit_of_def)
  have u: "type ?a \<notin> {''feat'', ''feature'', ''fix'', ''bugfix'', ''perf'', ''refactor'',
                       ''test'', ''tests''}"
    by simp
  note c6 = C6_type_to_severity [where parser = scenario_parse and c = ?c and a = ?a and s = init]
  have i: "majorChanges init = 0" "minorChanges init = 0" "patchChanges init = 0" "info init = []"
    by (simp_all add: init_def)
  from c6 have whole: "scenario_parse (message ?c) = Some ?a \<longrightarrow>
        type ?a \<notin> {''feat'', ''feature'', ''fix'', ''bugfix'', ''perf'', ''refactor'', ''test'',
                  ''tests''} \<longrightarrow>
        minorChanges (parse_commit scenario_parse ?c init) = minorChanges init
        \<and> patchChanges (parse_commit scenario_parse ?c init) = patchChanges init
        \<and> majorChanges (parse_commit scenario_parse ?c init)
            = majorChanges init
              + length (filter (\<lambda>n. title n = ''BREAKING CHANGE'') (cc_notes ?a))"
    by (elim conjE)
  from mp [OF mp [OF whole p] u] i
  have w1: "majorChanges (parse_commit scenario_parse ?c init) = 0"
    "minorChanges (parse_commit scenario_parse ?c init) = 0"
    "patchChanges (parse_commit scenario_parse ?c init) = 0"
    by simp_all
  from c6 have skip: "type ?a \<notin> {''feat'', ''feature'', ''fix'', ''bugfix'', ''perf'', ''refactor'', ''test'',
                  ''tests''} \<longrightarrow>
        bump_by_type ?c ?a init
          = core_info (''[SKIP] Commit '' @ sha ?c @ '' of type '' @ type ?a
                       @ '' will not cause any version bump.'') init
        \<and> bump_by_type ?c ?a init
          \<noteq> core_info (''[INVALID] Skipping commit '' @ sha ?c
                       @ '' as it doesn't follow conventional commit format.'') init"
    by (elim conjE)
  from mp [OF skip u] i
  have w2: "info (bump_by_type ?c ?a init)
       = [''[SKIP] Commit 0000000 of type chore will not cause any version bump.'']"
    by (simp add: core_info_def commit_of_def)
  from C6_type_to_severity [where c = "commit_of ''feat: b''"
         and a = "\<lparr>type = ''feat'', cc_notes = []\<rparr>" and s = init] i
  have w3: "minorChanges (bump_by_type (commit_of ''feat: b'') \<lparr>type = ''feat'', cc_notes = []\<rparr> init) = 1"
    by simp
  from p u w1 w2 w3 show ?thesis by simp
qed

text \<open>
  C6 as stated fails on a commit of an unlisted type with a breaking note: the chore
  below parses, its type is in none of the lists, and the major counter goes from 0 to 1.
\<close>

theorem C6_breaking_chore_counterexample:
  "scenario_parse (message (commit_of breaking_chore))
     = Some \<lparr>type = ''chore'',
             cc_notes = [\<lparr>title = ''BREAKING CHANGE'', note_text = ''drops support''\<rparr>]\<rparr>
   \<and> ''chore'' \<notin> set (major bumpTypes @ minor bumpTypes @ patch bumpTypes)
   \<and> majorChanges init = 0
   \<and> majorChanges (parse_commit scenario_parse (commit_of breaking_chore) init) = 1"
  by (simp add: scenario_parse_def commit_of_def breaking_fix_def breaking_chore_def
      bumpTypes_def init_def parse_commit_def bump_by_type_def bump_by_note_def core_info_def)

text \<open>
  C7. A commit whose message fails to parse only adds an INVALID line to the log: the
  three counters and the failures stay as they were, the scan goes on with the commits
  after it, and the counters and the decision of the whole scan are those of the list
  without that commit.
\<close>

theorem C7_parse_failure_changes_no_counter:
  "parser (message c) = None \<Longrightarrow>
   parse_commit parser c s
     = core_info (''[INVALID] Skipping commit '' @ sha c
                  @ '' as it doesn't follow conventional commit format.'') s
   \<and> majorChanges (parse_commit parser c s) = majorChanges s
   \<and> minorChanges (parse_commit parser c s) = minorChanges s
   \<and> patchChanges (parse_commit parser c s) = patchChanges s
   \<and> setFailed (parse_commit parser c s) = setFailed s
   \<and> parse_commits parser (xs @ c # ys) s
       = parse_commits parser ys (parse_commit parser c (parse_commits parser xs s))
   \<and> majorChanges (classify parser (xs @ c # ys) s) = majorChanges (classify parser (xs @ ys) s)
   \<and> minorChanges (classify parser (xs @ c # ys) s) = minorChanges (classify parser (xs @ ys) s)
   \<and> patchChanges (classify parser (xs @ c # ys) s) = patchChanges (classify parser (xs @ ys) s)
   \<and> bump_of (classify parser (xs @ c # ys) s) = bump_of (classify parser (xs @ ys) s)"
proof -
  assume p: "parser (message c) = None"
  have z: "major_of parser c = 0" "minor_of parser c = 0" "patch_of parser c = 0"
    using p by (simp_all add: major_of_def minor_of_def patch_of_def)
  have f1: "parse_commit parser c s
     = core_info (''[INVALID] Skipping commit '' @ sha c
                  @ '' as it doesn't follow conventional commit format.'') s"
    using p by (simp add: parse_commit_def)
  have f2: "majorChanges (parse_commit parser c s) = majorChanges s"
    and f3: "minorChanges (parse_commit parser c s) = minorChanges s"
    and f4: "patchChanges (parse_commit parser c s) = patchChanges s"
    using z by (simp_all add: commit_major commit_minor commit_patch)
  have f5: "setFailed (parse_commit parser c s) = setFailed s"
    by (rule commit_setFailed)
  have f6: "parse_commits parser (xs @ c # ys) s
       = parse_commits parser ys (parse_commit parser c (parse_commits parser xs s))"
    by (simp add: parse_commits_def)
  have sums:
    "sum_list (map (major_of parser) (xs @ c # ys)) = sum_list (map (major_of parser) (xs @ ys))"
    "sum_list (map (minor_of parser) (xs @ c # ys)) = sum_list (map (minor_of parser) (xs @ ys))"
    "sum_list (map (patch_of parser) (xs @ c # ys)) = sum_list (map (patch_of parser) (xs @ ys))"
    using z by simp_all
  have f7: "majorChanges (classify parser (xs @ c # ys) s) = majorChanges (classify parser (xs @ ys) s)"
    and f8: "minorChanges (classify parser (xs @ c # ys) s) = minorChanges (classify parser (xs @ ys) s)"
    and f9: "patchChanges (classify parser (xs @ c # ys) s) = patchChanges (classify parser (xs @ ys) s)"
    by (simp_all only: classify_major classify_minor classify_patch sums)
  have f10: "bump_of (classify parser (xs @ c # ys) s) = bump_of (classify parser (xs @ ys) s)"
    by (simp only: bump_of_classify sums)
  from f1 f2 f3 f4 f5 f6 f7 f8 f9 f10 show ?thesis by (intro conjI)
qed

text \<open>C7 on \<^verbatim>\<open>update readme\<close> between a fix and a feature.\<close>

theorem C7_witness:
  "scenario_parse (message (commit_of ''update readme'')) = None
   \<and> majorChanges (parse_commit scenario_parse (commit_of ''update readme'') init) = 0
   \<and> minorChanges (parse_commit scenario_parse (commit_of ''update readme'') init) = 0
   \<and> patchChanges (parse_commit scenario_parse (commit_of ''update readme'') init) = 0
   \<and> setFailed (parse_commit scenario_parse (commit_of ''update readme'') init) = []
   \<and> bump_of (classify scenario_parse
        (map commit_of [''fix: a'', ''update readme'', ''feat: b'']) init) = Some Minor"
proof -
  have p: "scenario_parse (message (commit_of ''update readme'')) = None"
    by (simp add: scenario_parse_def commit_of_def breaking_fix_def breaking_chore_def)
  note c7 = C7_parse_failure_changes_no_counter
              [where parser = scenario_parse and c = "commit_of ''update readme''" and s = init
                 and xs = "[commit_of ''fix: a'']" and ys = "[commit_of ''feat: b'']", OF p]
  have "bump_of (classify scenario_parse [commit_of ''fix: a'', commit_of ''feat: b''] init)
          = Some Minor"
    by (simp add: bump_of_classify major_of_def minor_of_def patch_of_def commit_of_def
        scenario_parse_def breaking_fix_def breaking_chore_def bumpTypes_def breaking_notes_def)
  moreover have "bump_of (classify scenario_parse
          ([commit_of ''fix: a''] @ commit_of ''update readme'' # [commit_of ''feat: b'']) init)
        = bump_of (classify scenario_parse ([commit_of ''fix: a''] @ [commit_of ''feat: b'']) init)"
    using c7 by (elim conjE)
  ultimately have b: "bump_of (classify scenario_parse
        (map commit_of [''fix: a'', ''update readme'', ''feat: b'']) init) = Some Minor"
    by simp
  have i: "majorChanges init = 0" "minorChanges init = 0" "patchChanges init = 0"
    "setFailed init = []"
    by (simp_all add: init_def)
  have "majorChanges (parse_commit scenario_parse (commit_of ''update readme'') init) = 0"
    using c7 [THEN conjunct2, THEN conjunct1] i by simp
  moreover have "minorChanges (parse_commit scenario_parse (commit_of ''update readme'') init) = 0"
    using c7 [THEN conjunct2, THEN conjunct2, THEN conjunct1] i by simp
  moreover have "patchChanges (parse_commit scenario_parse (commit_of ''update readme'') init) = 0"
    using c7 [THEN conjunct2, THEN conjunct2, THEN conjunct2, THEN conjunct1] i by simp
  moreover have "setFailed (parse_commit scenario_parse (commit_of ''update readme'') init) = []"
    using c7 [THEN conjunct2, THEN conjunct2, THEN conjunct2, THEN conjunct2, THEN conjunct1] i
    by simp
  ultimately show ?thesis using p b by (intro conjI)
qed

section \<open>The pages\<close>

text \<open>
  C2, as amended. The loop returns exactly when some page \<open>p\<close> has
  \<open>(p - 1) * 100 + length (page p)\<close> at or above the total reported with that page; it
  returns at the first such page, having requested the pages \<open>1 .. p\<close> and no other, and
  hands over their commits in order. The test counts every earlier page as 100 commits:
  when every earlier page does hold 100, the count is the number of commits fetched, so
  the loop stops with that number at or above the total, and every earlier page left it
  below the total reported then.
\<close>

theorem C2_stops_at_first_page_that_covers_total:
  "(get_commits fetch 0 [] = Some r \<longleftrightarrow>
      0 < curPage r \<and> \<not> hasMoreCommits fetch (curPage r)
      \<and> (\<forall>p. 0 < p \<and> p < curPage r \<longrightarrow> hasMoreCommits fetch p)
      \<and> totalCommits r = total_commits fetch (curPage r)
      \<and> commits r = concat (map (rangeCommits fetch) [1..<Suc (curPage r)]))
   \<and> (get_commits fetch 0 [] = Some r \<longrightarrow>
        (\<forall>p. 0 < p \<and> p < curPage r \<longrightarrow> length (rangeCommits fetch p) = 100) \<longrightarrow>
        length (commits r) = cumulative fetch (curPage r)
        \<and> totalCommits r \<le> int (cumulative fetch (curPage r))
        \<and> (\<forall>p. 0 < p \<and> p < curPage r \<longrightarrow> int (cumulative fetch p) < total_commits fetch p))"
proof -
  have fwd: "0 < curPage r \<and> \<not> hasMoreCommits fetch (curPage r)
      \<and> (\<forall>p. 0 < p \<and> p < curPage r \<longrightarrow> hasMoreCommits fetch p)
      \<and> totalCommits r = total_commits fetch (curPage r)
      \<and> commits r = concat (map (rangeCommits fetch) [1..<Suc (curPage r)])"
    if some: "get_commits fetch 0 [] = Some r"
  proof -
    from get_commits_Some [OF some]
    have k: "0 < curPage r" "\<not> hasMoreCommits fetch (curPage r)"
      "\<forall>p. 0 < p \<and> p < curPage r \<longrightarrow> hasMoreCommits fetch p" by simp_all
    from get_commits_first_stop [OF k, of "[]"] some
    have "r = \<lparr>curPage = curPage r, totalCommits = total_commits fetch (curPage r),
               commits = concat (map (rangeCommits fetch) [Suc 0..<Suc (curPage r)])\<rparr>"
      by simp
    then have "totalCommits r = total_commits fetch (curPage r)"
      "commits r = concat (map (rangeCommits fetch) [1..<Suc (curPage r)])"
      by (metis fetched.select_convs(2), metis fetched.select_convs(3) One_nat_def)
    with k show ?thesis by simp
  qed
  have bwd: "get_commits fetch 0 [] = Some r"
    if h: "0 < curPage r \<and> \<not> hasMoreCommits fetch (curPage r)
      \<and> (\<forall>p. 0 < p \<and> p < curPage r \<longrightarrow> hasMoreCommits fetch p)
      \<and> totalCommits r = total_commits fetch (curPage r)
      \<and> commits r = concat (map (rangeCommits fetch) [1..<Suc (curPage r)])"
  proof -
    from h have k: "0 < curPage r" "\<not> hasMoreCommits fetch (curPage r)"
      "\<forall>p. 0 < p \<and> p < curPage r \<longrightarrow> hasMoreCommits fetch p" by simp_all
    from get_commits_first_stop [OF k, of "[]"] h show ?thesis by simp
  qed
  have full: "length (commits r) = cumulative fetch (curPage r)
        \<and> totalCommits r \<le> int (cumulative fetch (curPage r))
        \<and> (\<forall>p. 0 < p \<and> p < curPage r \<longrightarrow> int (cumulative fetch p) < total_commits fetch p)"
    if some: "get_commits fetch 0 [] = Some r"
      and hundred: "\<forall>p. 0 < p \<and> p < curPage r \<longrightarrow> length (rangeCommits fetch p) = 100"
  proof -
    note f = fwd [OF some]
    have c: "cumulative fetch p = (p - 1) * 100 + length (rangeCommits fetch p)"
      if "0 < p" "p \<le> curPage r" for p
      using that hundred by (intro cumulative_full) auto
    have more: "hasMoreCommits fetch p \<longleftrightarrow> int (cumulative fetch p) < total_commits fetch p"
      if "0 < p" "p \<le> curPage r" for p
      by (simp only: hasMoreCommits_def c [OF that])
    have "length (commits r) = cumulative fetch (curPage r)"
      using f by (simp add: cumulative_def)
    moreover have "totalCommits r \<le> int (cumulative fetch (curPage r))"
      using f more [of "curPage r"] by simp
    moreover have "int (cumulative fetch p) < total_commits fetch p"
      if "0 < p \<and> p < curPage r" for p
      using f more [of p] that by simp
    ultimately show ?thesis by blast
  qed
  show ?thesis using fwd bwd full by blast
qed

text \<open>C2 on a full first page and a second page of one commit, 101 in total.\<close>

theorem C2_witness:
  "get_commits two_pages 0 [] = Some two_pages_fetched
   \<and> hasMoreCommits two_pages 1 \<and> length (rangeCommits two_pages 1) = 100
   \<and> \<not> hasMoreCommits two_pages 2
   \<and> length (commits two_pages_fetched) = cumulative two_pages 2
   \<and> totalCommits two_pages_fetched \<le> int (cumulative two_pages 2)
   \<and> int (cumulative two_pages 1) < total_commits two_pages 1"
proof -
  have r1: "rangeCommits two_pages (Suc 0) = replicate 100 (commit_of ''fix: a'')"
    and r2: "rangeCommits two_pages 2 = [commit_of ''feat: b'']"
    and t: "total_commits two_pages p = 101" for p
    by (simp_all add: rangeCommits_def total_commits_def two_pages_def)
  have cp: "curPage two_pages_fetched = 2" by (simp add: two_pages_fetched_def)
  have more: "hasMoreCommits two_pages (Suc 0)"
    by (simp add: hasMoreCommits_def r1 t)
  have stop: "\<not> hasMoreCommits two_pages 2"
    by (simp add: hasMoreCommits_def r2 t)
  have less2: "p = Suc 0" if "0 < p \<and> p < 2" for p :: nat using that by simp
  have all_more: "\<forall>p. 0 < p \<and> p < curPage two_pages_fetched \<longrightarrow> hasMoreCommits two_pages p"
    using more by (auto simp: cp dest!: less2)
  have full: "\<forall>p. 0 < p \<and> p < curPage two_pages_fetched \<longrightarrow> length (rangeCommits two_pages p) = 100"
    using r1 by (auto simp: cp dest!: less2)
  have up: "[Suc 0..<3] = [Suc 0, 2]" by (simp add: numeral_3_eq_3 numeral_2_eq_2)
  have rhs: "0 < curPage two_pages_fetched \<and> \<not> hasMoreCommits two_pages (curPage two_pages_fetched)
      \<and> (\<forall>p. 0 < p \<and> p < curPage two_pages_fetched \<longrightarrow> hasMoreCommits two_pages p)
      \<and> totalCommits two_pages_fetched = total_commits two_pages (curPage two_pages_fetched)
      \<and> commits two_pages_fetched
          = concat (map (rangeCommits two_pages) [1..<Suc (curPage two_pages_fetched)])"
    using stop all_more by (simp add: cp up r1 r2 t) (simp add: two_pages_fetched_def)
  note c2 = C2_stops_at_first_page_that_covers_total [of two_pages two_pages_fetched]
  have some: "get_commits two_pages 0 [] = Some two_pages_fetched"
    by (rule iffD2 [OF conjunct1 [OF c2] rhs])
  have "length (commits two_pages_fetched) = cumulative two_pages (curPage two_pages_fetched)
        \<and> totalCommits two_pages_fetched \<le> int (cumulative two_pages (curPage two_pages_fetched))
        \<and> (\<forall>p. 0 < p \<and> p < curPage two_pages_fetched \<longrightarrow>
               int (cumulative two_pages p) < total_commits two_pages p)"
    by (rule mp [OF mp [OF conjunct2 [OF c2] some] full])
  then have "length (commits two_pages_fetched) = cumulative two_pages 2"
    "totalCommits two_pages_fetched \<le> int (cumulative two_pages 2)"
    "int (cumulative two_pages 1) < total_commits two_pages 1"
    by (simp_all add: cp)
  with some more stop r1 show ?thesis by simp
qed

text \<open>
  C2 as stated fails on pages shorter than 100: with one commit per page and a reported
  total of 3, the loop stops after page 2, since \<open>1 * 100 + 1\<close> is not below 3, holding 2
  commits.
\<close>

theorem C2_short_pages_counterexample:
  "get_commits short_pages 0 [] =
     Some \<lparr>curPage = 2, totalCommits = 3,
           commits = [\<lparr>sha = ''c'' , message = ''fix: a''\<rparr>, \<lparr>sha = ''c'' , message = ''fix: a''\<rparr>]\<rparr>
   \<and> \<not> (3 \<le> int (length [\<lparr>sha = ''c'' , message = ''fix: a''\<rparr>, \<lparr>sha = ''c'' , message = ''fix: a''\<rparr>]))"
proof -
  have more: "hasMoreCommits short_pages (Suc 0)"
    by (simp add: hasMoreCommits_def short_pages_def rangeCommits_def total_commits_def)
  have stop: "\<not> hasMoreCommits short_pages (Suc (Suc 0))"
    by (simp add: hasMoreCommits_def short_pages_def rangeCommits_def total_commits_def)
  show ?thesis
    by (simp add: get_commits_more [OF more] get_commits_stop [OF stop])
       (simp add: short_pages_def rangeCommits_def total_commits_def numeral_2_eq_2)
qed

section \<open>Failures and outputs\<close>

text \<open>
  C8. Without a tag the run halts with the one failure about the missing tag; with a tag
  and an empty range of commits, with the one failure about the missing commits; with a
  tag, commits and three counters at zero, with the one failure about the missing bump;
  each time no variable is exported. A run that reports a failure reports one of these
  three and exports nothing; a run that exports a variable reports no failure, exports
  \<^verbatim>\<open>next\<close> and \<^verbatim>\<open>nextStrict\<close>, and had a tag, commits and a decision.
\<close>

theorem C8_failures_export_nothing:
  "(latestTag (tagsRaw e) = None \<longrightarrow> halted_with no_tag_message (main e))
   \<and> (latestTag (tagsRaw e) = Some t \<longrightarrow>
        get_commits (compareCommitsWithBasehead e (name t @ ''...'' @ branch e)) 0 [] = Some f \<longrightarrow>
        commits f = [] \<longrightarrow> halted_with no_commits_message (main e))
   \<and> (latestTag (tagsRaw e) = Some t \<longrightarrow>
        get_commits (compareCommitsWithBasehead e (name t @ ''...'' @ branch e)) 0 [] = Some f \<longrightarrow>
        commits f \<noteq> [] \<longrightarrow> bump_of (classify (cc_parse e) (commits f) init) = None \<longrightarrow>
        halted_with no_bump_message (main e))
   \<and> (main e = Some r \<longrightarrow> setFailed r \<noteq> [] \<longrightarrow>
        exportVariable r = []
        \<and> (setFailed r = [no_tag_message] \<or> setFailed r = [no_commits_message]
           \<or> setFailed r = [no_bump_message]))
   \<and> (main e = Some r \<longrightarrow> exportVariable r \<noteq> [] \<longrightarrow>
        setFailed r = [] \<and> map fst (exportVariable r) = [''next'', ''nextStrict'']
        \<and> (\<exists>t f b. latestTag (tagsRaw e) = Some t
              \<and> get_commits (compareCommitsWithBasehead e (name t @ ''...'' @ branch e)) 0 []
                  = Some f
              \<and> commits f \<noteq> []
              \<and> bump_of (classify (cc_parse e) (commits f) init) = Some b))"
proof (intro conjI impI)
  show "halted_with no_tag_message (main e)" if "latestTag (tagsRaw e) = None"
    by (simp add: main_no_tag [OF that] halted_with_def core_setFailed_def init_def)
next
  assume t: "latestTag (tagsRaw e) = Some t"
    and f: "get_commits (compareCommitsWithBasehead e (name t @ ''...'' @ branch e)) 0 [] = Some f"
  show "halted_with no_commits_message (main e)" if "commits f = []"
    using that
    by (simp add: main_fetched [OF t f] halted_with_def core_setFailed_def core_info_def init_def)
  show "halted_with no_bump_message (main e)"
    if ne: "commits f \<noteq> []" and none: "bump_of (classify (cc_parse e) (commits f) init) = None"
  proof -
    show ?thesis
      using ne none
      by (simp add: main_fetched [OF t f] halted_with_def bump_version_setFailed
          bump_version_exportVariable core_info_out init_out)
  qed
next
  assume m: "main e = Some r"
  show "exportVariable r = []" if "setFailed r \<noteq> []"
    using main_outcome [OF m] that by auto
  show "setFailed r = [no_tag_message] \<or> setFailed r = [no_commits_message]
           \<or> setFailed r = [no_bump_message]" if "setFailed r \<noteq> []"
    using main_outcome [OF m] that by auto
  show "setFailed r = []" if "exportVariable r \<noteq> []"
    using main_outcome [OF m] that by auto
  show "map fst (exportVariable r) = [''next'', ''nextStrict'']" if "exportVariable r \<noteq> []"
    using main_outcome [OF m] that by auto
  show "\<exists>t f b. latestTag (tagsRaw e) = Some t
              \<and> get_commits (compareCommitsWithBasehead e (name t @ ''...'' @ branch e)) 0 []
                  = Some f
              \<and> commits f \<noteq> []
              \<and> bump_of (classify (cc_parse e) (commits f) init) = Some b"
    if "exportVariable r \<noteq> []"
    using main_outcome [OF m] that by auto
qed

text \<open>C8 on a repository without tags, one without commits, one with a chore, one with a fix.\<close>

theorem C8_witness:
  "halted_with no_tag_message (main (scenario [] [''fix: a'']))
   \<and> halted_with no_commits_message (main (scenario [\<lparr>name = ''v1.2.3'', oid = ''0''\<rparr>] []))
   \<and> halted_with no_bump_message
        (main (scenario [\<lparr>name = ''v1.2.3'', oid = ''0''\<rparr>] [''chore: x'']))
   \<and> map_option setFailed (main (scenario [\<lparr>name = ''v1.2.3'', oid = ''0''\<rparr>] [''fix: a'']))
       = Some []
   \<and> map_option (map fst \<circ> exportVariable)
        (main (scenario [\<lparr>name = ''v1.2.3'', oid = ''0''\<rparr>] [''fix: a'']))
       = Some [''next'', ''nextStrict'']"
proof -
  let ?t = "\<lparr>name = ''v1.2.3'', oid = ''0''\<rparr>"
  have tag: "latestTag (tagsRaw (scenario [?t] ms)) = Some ?t" for ms
    by (simp add: latestTag_def scenario_def)
  have f: "get_commits (compareCommitsWithBasehead (scenario [?t] ms)
             (name ?t @ ''...'' @ branch (scenario [?t] ms))) 0 []
           = Some \<lparr>curPage = 1, totalCommits = int (length ms), commits = map commit_of ms\<rparr>"
    for ms
    by (rule scenario_get_commits)
  have "latestTag (tagsRaw (scenario [] [''fix: a''])) = None"
    by (simp add: latestTag_def scenario_def)
  from mp [OF conjunct1 [OF C8_failures_export_nothing] this]
  have w1: "halted_with no_tag_message (main (scenario [] [''fix: a'']))" .
  have w2: "halted_with no_commits_message (main (scenario [?t] []))"
    by (rule mp [OF mp [OF mp [OF conjunct1 [OF conjunct2 [OF C8_failures_export_nothing]]
          tag] f]]) simp
  have w3: "halted_with no_bump_message (main (scenario [?t] [''chore: x'']))"
    by (rule mp [OF mp [OF mp [OF mp [OF conjunct1 [OF conjunct2 [OF conjunct2
          [OF C8_failures_export_nothing]]] tag] f]]])
       (simp_all add: scenario_sel scenario_bump_chore [simplified])
  let ?e = "scenario [?t] [''fix: a'']"
  let ?r = "bump_version ?e ?t (map commit_of [''fix: a''])
              (core_info (''Comparing against latest tag: '' @ name ?t) init)"
  have m: "main ?e = Some ?r" by (rule scenario_main)
  have x: "exportVariable ?r \<noteq> []"
    by (simp add: bump_version_exportVariable scenario_sel scenario_bump_fix [simplified])
  from mp [OF mp [OF conjunct2 [OF conjunct2 [OF conjunct2 [OF conjunct2
        [OF C8_failures_export_nothing]]]] m] x]
  have "setFailed ?r = []" "map fst (exportVariable ?r) = [''next'', ''nextStrict'']"
    by blast+
  with m have "map_option setFailed (main ?e) = Some []"
    "map_option (map fst \<circ> exportVariable) (main ?e) = Some [''next'', ''nextStrict'']"
    by simp_all
  with w1 w2 w3 show ?thesis by (intro conjI)
qed

text \<open>
  C10. The name of the tag is handed to the incrementer as it is. When a tag exists, the
  commits give a decision and the incrementer answers \<^verbatim>\<open>null\<close>, the run reports no
  failure, logs \<^verbatim>\<open>Next version is vnull\<close> and exports \<^verbatim>\<open>next\<close> as \<^verbatim>\<open>vnull\<close> and
  \<^verbatim>\<open>nextStrict\<close> as \<^verbatim>\<open>null\<close>.
\<close>

theorem C10_unparseable_tag_exports_null:
  "latestTag (tagsRaw e) = Some t \<Longrightarrow>
   get_commits (compareCommitsWithBasehead e (name t @ ''...'' @ branch e)) 0 [] = Some f \<Longrightarrow>
   bump_of (classify (cc_parse e) (commits f) init) = Some b \<Longrightarrow>
   semver_inc e (name t) b = None \<Longrightarrow>
   \<exists>r. main e = Some r \<and> setFailed r = []
       \<and> exportVariable r = [(''next'', Some ''vnull''), (''nextStrict'', None)]
       \<and> last (info r) = ''Next version is vnull''"
proof -
  assume t: "latestTag (tagsRaw e) = Some t"
    and f: "get_commits (compareCommitsWithBasehead e (name t @ ''...'' @ branch e)) 0 [] = Some f"
    and b: "bump_of (classify (cc_parse e) (commits f) init) = Some b"
    and n: "semver_inc e (name t) b = None"
  let ?s = "core_info (''Comparing against latest tag: '' @ name t) init"
  have ne: "commits f \<noteq> []"
    using b classify_Nil [of "cc_parse e" init] by auto
  have m: "main e = Some (bump_version e t (commits f) ?s)"
    using ne by (simp add: main_fetched [OF t f])
  have "last (info (bump_version e t (commits f) ?s)) = ''Next version is vnull''"
    by (simp add: bump_version_info [OF b] n)
  moreover have "setFailed (bump_version e t (commits f) ?s) = []"
    by (simp add: bump_version_setFailed b core_info_out init_out)
  moreover have "exportVariable (bump_version e t (commits f) ?s)
      = [(''next'', Some ''vnull''), (''nextStrict'', None)]"
    by (simp add: bump_version_exportVariable b n core_info_out init_out)
  ultimately show ?thesis using m by blast
qed

text \<open>C10 on the tag \<^verbatim>\<open>release-abc\<close> and one fix.\<close>

theorem C10_witness:
  "latestTag (tagsRaw (scenario [\<lparr>name = ''release-abc'', oid = ''0''\<rparr>] [''fix: a'']))
     = Some \<lparr>name = ''release-abc'', oid = ''0''\<rparr>
   \<and> bump_of (classify scenario_parse (map commit_of [''fix: a'']) init) = Some Patch
   \<and> scenario_inc ''release-abc'' Patch = None
   \<and> (\<exists>r. main (scenario [\<lparr>name = ''release-abc'', oid = ''0''\<rparr>] [''fix: a'']) = Some r
         \<and> setFailed r = []
         \<and> exportVariable r = [(''next'', Some ''vnull''), (''nextStrict'', None)]
         \<and> last (info r) = ''Next version is vnull'')"
proof -
  let ?t = "\<lparr>name = ''release-abc'', oid = ''0''\<rparr>"
  let ?e = "scenario [?t] [''fix: a'']"
  let ?f = "\<lparr>curPage = 1, totalCommits = int (length [''fix: a'']),
            commits = map commit_of [''fix: a'']\<rparr>"
  have t: "latestTag (tagsRaw ?e) = Some ?t" by (simp add: latestTag_def scenario_def)
  have f: "get_commits (compareCommitsWithBasehead ?e (name ?t @ ''...'' @ branch ?e)) 0 []
           = Some ?f"
    by (rule scenario_get_commits)
  have b: "bump_of (classify (cc_parse ?e) (commits ?f) init) = Some Patch"
    by (simp add: scenario_sel scenario_bump_fix [simplified])
  have n: "semver_inc ?e (name ?t) Patch = None"
    by (simp add: scenario_sel scenario_inc_def)
  from C10_unparseable_tag_exports_null [OF t f b n] t scenario_bump_fix n
  show ?thesis by (simp add: scenario_sel)
qed

text \<open>
  C4, as amended. In every run that reaches the outputs, \<^verbatim>\<open>nextStrict\<close> is the answer
  of the incrementer on the unchanged tag name, and \<^verbatim>\<open>next\<close> is the letter v followed
  by that answer as a template prints it. When the incrementer answers a version,
  \<^verbatim>\<open>next\<close> is the prefix of the tag followed by \<^verbatim>\<open>nextStrict\<close> exactly when that
  prefix is the letter v.
\<close>

theorem C4_next_is_v_and_nextStrict:
  "latestTag (tagsRaw e) = Some t \<Longrightarrow>
   get_commits (compareCommitsWithBasehead e (name t @ ''...'' @ branch e)) 0 [] = Some f \<Longrightarrow>
   bump_of (classify (cc_parse e) (commits f) init) = Some b \<Longrightarrow>
   (\<exists>r. main e = Some r
        \<and> exportVariable r = [(''next'', Some (''v'' @ template (semver_inc e (name t) b))),
                               (''nextStrict'', semver_inc e (name t) b)])
   \<and> (\<forall>v. semver_inc e (name t) b = Some v \<longrightarrow>
          (''v'' @ template (semver_inc e (name t) b) = tag_prefix (name t) @ v
           \<longleftrightarrow> tag_prefix (name t) = ''v''))"
proof -
  assume t: "latestTag (tagsRaw e) = Some t"
    and f: "get_commits (compareCommitsWithBasehead e (name t @ ''...'' @ branch e)) 0 [] = Some f"
    and b: "bump_of (classify (cc_parse e) (commits f) init) = Some b"
  from main_success [OF t f b]
  have "\<exists>r. main e = Some r
        \<and> exportVariable r = [(''next'', Some (''v'' @ template (semver_inc e (name t) b))),
                               (''nextStrict'', semver_inc e (name t) b)]"
    by blast
  moreover have "''v'' @ template (semver_inc e (name t) b) = tag_prefix (name t) @ v
           \<longleftrightarrow> tag_prefix (name t) = ''v''"
    if "semver_inc e (name t) b = Some v" for v
    using that by (auto simp: append_eq_append_conv)
  ultimately show ?thesis by blast
qed

text \<open>C4 on the tag v1.2.3 with a fix and a feature: v1.3.0 and 1.3.0.\<close>

theorem C4_witness:
  "latestTag (tagsRaw (scenario [\<lparr>name = ''v1.2.3'', oid = ''0''\<rparr>] [''fix: a'', ''feat: b'']))
     = Some \<lparr>name = ''v1.2.3'', oid = ''0''\<rparr>
   \<and> bump_of (classify scenario_parse (map commit_of [''fix: a'', ''feat: b'']) init) = Some Minor
   \<and> scenario_inc ''v1.2.3'' Minor = Some ''1.3.0''
   \<and> map_option exportVariable
        (main (scenario [\<lparr>name = ''v1.2.3'', oid = ''0''\<rparr>] [''fix: a'', ''feat: b'']))
       = Some [(''next'', Some ''v1.3.0''), (''nextStrict'', Some ''1.3.0'')]
   \<and> tag_prefix ''v1.2.3'' = ''v''"
proof -
  let ?t = "\<lparr>name = ''v1.2.3'', oid = ''0''\<rparr>"
  let ?e = "scenario [?t] [''fix: a'', ''feat: b'']"
  let ?f = "\<lparr>curPage = 1, totalCommits = int (length [''fix: a'', ''feat: b'']),
            commits = map commit_of [''fix: a'', ''feat: b'']\<rparr>"
  have t: "latestTag (tagsRaw ?e) = Some ?t" by (simp add: latestTag_def scenario_def)
  have f: "get_commits (compareCommitsWithBasehead ?e (name ?t @ ''...'' @ branch ?e)) 0 []
           = Some ?f"
    by (rule scenario_get_commits)
  have b: "bump_of (classify (cc_parse ?e) (commits ?f) init) = Some Minor"
    by (simp add: scenario_sel scenario_bump_fix_feat [simplified])
  have n: "semver_inc ?e (name ?t) Minor = Some ''1.3.0''"
    by (simp add: scenario_sel scenario_inc_def)
  note c4 = C4_next_is_v_and_nextStrict [OF t f b]
  from c4 [THEN conjunct1] n
  have x: "map_option exportVariable (main ?e)
             = Some [(''next'', Some ''v1.3.0''), (''nextStrict'', Some ''1.3.0'')]"
    by auto
  from c4 [THEN conjunct2, rule_format, OF n] n
  have p: "tag_prefix ''v1.2.3'' = ''v''"
    by (simp add: tag_prefix_def)
  from t scenario_bump_fix_feat n x p show ?thesis by (simp add: scenario_sel)
qed

text \<open>
  C4 as stated fails on a tag without prefix: after the tag 1.2.3 and one fix, \<^verbatim>\<open>next\<close>
  is v1.2.4, which is not the empty prefix of the tag followed by 1.2.4.
\<close>

theorem C4_unprefixed_tag_counterexample:
  "map_option exportVariable (main (scenario [\<lparr>name = ''1.2.3'', oid = ''0''\<rparr>] [''fix: a'']))
     = Some [(''next'', Some ''v1.2.4''), (''nextStrict'', Some ''1.2.4'')]
   \<and> tag_prefix ''1.2.3'' = ''''
   \<and> ''v1.2.4'' \<noteq> tag_prefix ''1.2.3'' @ ''1.2.4''"
proof -
  let ?t = "\<lparr>name = ''1.2.3'', oid = ''0''\<rparr>"
  let ?e = "scenario [?t] [''fix: a'']"
  have "exportVariable (bump_version ?e ?t (map commit_of [''fix: a''])
          (core_info (''Comparing against latest tag: '' @ name ?t) init))
        = [(''next'', Some ''v1.2.4''), (''nextStrict'', Some ''1.2.4'')]"
    by (simp add: bump_version_exportVariable scenario_sel scenario_bump_fix [simplified]
        scenario_inc_def core_info_out init_out)
  then have "map_option exportVariable (main ?e)
     = Some [(''next'', Some ''v1.2.4''), (''nextStrict'', Some ''1.2.4'')]"
    by (simp add: scenario_main)
  moreover have "tag_prefix ''1.2.3'' = ''''" by (simp add: tag_prefix_def)
  ultimately show ?thesis by simp
qed

end
